theory Spec2Isabelle
  imports Complex_Main
begin

section \<open>Python text\<close>

text \<open>
  A Python \<open>str\<close> is a sequence of Unicode code points, so text is a list of natural
  numbers, one per code point.  \<open>ustr\<close> reads an ASCII literal of this theory as
  such a text.
\<close>

type_synonym ustring = "nat list"

definition ustr :: "string \<Rightarrow> ustring" where
  "ustr s = map of_char s"

definition newline :: nat where
  "newline = 10"

text \<open>\<open>startswith s p\<close> is \<open>s.startswith(p)\<close>; \<open>str_in sub s\<close> is \<open>sub in s\<close>.\<close>

fun startswith :: "'a list \<Rightarrow> 'a list \<Rightarrow> bool" where
  "startswith s [] = True"
| "startswith [] (p # ps) = False"
| "startswith (c # cs) (p # ps) = (c = p \<and> startswith cs ps)"

fun str_in :: "'a list \<Rightarrow> 'a list \<Rightarrow> bool" where
  "str_in sub [] = (sub = [])"
| "str_in sub (c # cs) = (startswith (c # cs) sub \<or> str_in sub cs)"

text \<open>\<open>slice s a b\<close> is \<open>s[a:b]\<close> for \<open>0 \<le> a \<le> b\<close>.\<close>

definition slice :: "'a list \<Rightarrow> nat \<Rightarrow> nat \<Rightarrow> 'a list" where
  "slice s a b = take (b - a) (drop a s)"

text \<open>The decimal rendering of a non-negative integer, as an f-string prints it.\<close>

fun str_of_nat :: "nat \<Rightarrow> ustring" where
  "str_of_nat n = (if n < 10 then [48 + n] else str_of_nat (n div 10) @ [48 + n mod 10])"

section \<open>The regular expressions of module \<open>re\<close> that the scripts use\<close>

text \<open>
  The patterns of the scripts are built from literal characters, \<open>.\<close>, the classes
  \<open>\s\<close> and \<open>\d\<close>, bracket sets, the greedy repetitions \<open>*\<close> and \<open>+\<close> of a
  single character, and one unrepeated capture group.  \<open>re_compile\<close> reads this
  fragment of the pattern language and answers \<open>None\<close> on anything outside it.
\<close>

datatype cls = CChar nat | CSpace | CDigit

datatype atom = AnyChar | One cls | Bracket bool "cls list"

datatype quant = Once | Star | Plus

datatype node = Atom atom quant | GroupOpen | GroupClose

datatype token = TAtom atom | TStar | TPlus | TOpen | TClose

datatype lex_state = Top | InSet bool "cls list"

text \<open>The backslash, which a string literal of this theory cannot hold.\<close>

definition bs :: char where
  "bs = CHR 0x5C"

definition special_chars :: string where
  "special_chars = bs # ''.^$*+?{}[]|()''"

definition is_ascii :: "char \<Rightarrow> bool" where
  "is_ascii c = ((of_char c :: nat) < 128)"

fun escape_cls :: "char \<Rightarrow> cls option" where
  "escape_cls c =
     (if c = CHR ''s'' then Some CSpace
      else if c = CHR ''d'' then Some CDigit
      else if c \<in> set special_chars then Some (CChar (of_char c))
      else None)"

fun lex :: "lex_state \<Rightarrow> string \<Rightarrow> token list option" where
  "lex Top [] = Some []"
| "lex (InSet neg acc) [] = None"
| "lex Top (c # cs) =
     (if \<not> is_ascii c then None
      else if c = bs then
        (case cs of [] \<Rightarrow> None
         | d # ds \<Rightarrow>
            (case escape_cls d of None \<Rightarrow> None
             | Some k \<Rightarrow> map_option (Cons (TAtom (One k))) (lex Top ds)))
      else if c = CHR ''['' then
        (case cs of [] \<Rightarrow> None
         | d # ds \<Rightarrow> if d = CHR ''^'' then lex (InSet True []) ds else lex (InSet False []) (d # ds))
      else if c = CHR ''.'' then map_option (Cons (TAtom AnyChar)) (lex Top cs)
      else if c = CHR ''*'' then map_option (Cons TStar) (lex Top cs)
      else if c = CHR ''+'' then map_option (Cons TPlus) (lex Top cs)
      else if c = CHR ''('' then map_option (Cons TOpen) (lex Top cs)
      else if c = CHR '')'' then map_option (Cons TClose) (lex Top cs)
      else if c \<in> set special_chars then None
      else map_option (Cons (TAtom (One (CChar (of_char c))))) (lex Top cs))"
| "lex (InSet neg acc) (c # cs) =
     (if \<not> is_ascii c then None
      else if c = CHR '']'' then
        (if acc = [] then None
         else map_option (Cons (TAtom (Bracket neg (rev acc)))) (lex Top cs))
      else if c = bs then
        (case cs of [] \<Rightarrow> None
         | d # ds \<Rightarrow>
            (case escape_cls d of None \<Rightarrow> None
             | Some k \<Rightarrow> lex (InSet neg (k # acc)) ds))
      else if c = CHR ''-'' \<or> c = CHR ''['' \<or> c = CHR ''^'' then None
      else lex (InSet neg (CChar (of_char c) # acc)) cs)"

fun attach :: "token list \<Rightarrow> node list option" where
  "attach [] = Some []"
| "attach (TAtom a # TStar # ts) = map_option (Cons (Atom a Star)) (attach ts)"
| "attach (TAtom a # TPlus # ts) = map_option (Cons (Atom a Plus)) (attach ts)"
| "attach (TAtom a # ts) = map_option (Cons (Atom a Once)) (attach ts)"
| "attach (TOpen # ts) = map_option (Cons GroupOpen) (attach ts)"
| "attach (TClose # TStar # ts) = None"
| "attach (TClose # TPlus # ts) = None"
| "attach (TClose # ts) = map_option (Cons GroupClose) (attach ts)"
| "attach (TStar # ts) = None"
| "attach (TPlus # ts) = None"

text \<open>Groups are closed before the next one opens, and before the pattern ends.\<close>

fun groups_ok :: "bool \<Rightarrow> node list \<Rightarrow> bool" where
  "groups_ok inside [] = (\<not> inside)"
| "groups_ok inside (GroupOpen # ns) = (\<not> inside \<and> groups_ok True ns)"
| "groups_ok inside (GroupClose # ns) = (inside \<and> groups_ok False ns)"
| "groups_ok inside (Atom a q # ns) = groups_ok inside ns"

definition re_compile :: "string \<Rightarrow> node list option" where
  "re_compile pattern =
     (case lex Top pattern of None \<Rightarrow> None
      | Some ts \<Rightarrow>
         (case attach ts of None \<Rightarrow> None
          | Some ns \<Rightarrow> if groups_ok False ns then Some ns else None))"

subsection \<open>Character tests\<close>

text \<open>
  \<open>\s\<close> is \<open>str.isspace\<close> and \<open>\d\<close> is \<open>str.isdecimal\<close> on one code point
  (Unicode 14.0.0, the tables of Python 3.11): the decimal digits come in runs of ten
  that start at the code points of \<open>decimal_zeros\<close>, and one run of fifty
  mathematical digits.
\<close>

definition is_space :: "nat \<Rightarrow> bool" where
  "is_space c =
     ((9 \<le> c \<and> c \<le> 13) \<or> (28 \<le> c \<and> c \<le> 32) \<or> c = 0x85 \<or> c = 0xA0 \<or> c = 0x1680
      \<or> (0x2000 \<le> c \<and> c \<le> 0x200A) \<or> c = 0x2028 \<or> c = 0x2029 \<or> c = 0x202F
      \<or> c = 0x205F \<or> c = 0x3000)"

definition decimal_zeros :: "nat list" where
  "decimal_zeros =
     [0x660, 0x6F0, 0x7C0, 0x966, 0x9E6, 0xA66, 0xAE6, 0xB66, 0xBE6, 0xC66, 0xCE6,
      0xD66, 0xDE6, 0xE50, 0xED0, 0xF20, 0x1040, 0x1090, 0x17E0, 0x1810, 0x1946, 0x19D0,
      0x1A80, 0x1A90, 0x1B50, 0x1BB0, 0x1C40, 0x1C50, 0xA620, 0xA8D0, 0xA900, 0xA9D0,
      0xA9F0, 0xAA50, 0xABF0, 0xFF10, 0x104A0, 0x10D30, 0x11066, 0x110F0, 0x11136,
      0x111D0, 0x112F0, 0x11450, 0x114D0, 0x11650, 0x116C0, 0x11730, 0x118E0, 0x11950,
      0x11C50, 0x11D50, 0x11DA0, 0x16A60, 0x16AC0, 0x16B50, 0x1E140, 0x1E2F0, 0x1E950,
      0x1FBF0]"

definition is_decimal :: "nat \<Rightarrow> bool" where
  "is_decimal c =
     ((48 \<le> c \<and> c \<le> 57) \<or> (0x1D7CE \<le> c \<and> c \<le> 0x1D7FF)
      \<or> list_ex (\<lambda>z. z \<le> c \<and> c < z + 10) decimal_zeros)"

text \<open>
  Under \<open>re.IGNORECASE\<close> an ASCII character of a pattern matches both cases of the
  letter and, for \<open>i\<close>, \<open>s\<close> and \<open>k\<close>, the code points U+0130, U+0131, U+017F and
  U+212A as well.  \<open>re_compile\<close> accepts ASCII patterns only.
\<close>

definition fold_case :: "nat \<Rightarrow> nat" where
  "fold_case c =
     (if 65 \<le> c \<and> c \<le> 90 then c + 32
      else if c = 0x130 \<or> c = 0x131 then 105
      else if c = 0x17F then 115
      else if c = 0x212A then 107
      else c)"

fun cls_ok :: "bool \<Rightarrow> cls \<Rightarrow> nat \<Rightarrow> bool" where
  "cls_ok ic (CChar c) d = (if ic then fold_case c = fold_case d else c = d)"
| "cls_ok ic CSpace d = is_space d"
| "cls_ok ic CDigit d = is_decimal d"

fun atom_ok :: "bool \<Rightarrow> atom \<Rightarrow> nat \<Rightarrow> bool" where
  "atom_ok ic AnyChar d = (d \<noteq> newline)"
| "atom_ok ic (One k) d = cls_ok ic k d"
| "atom_ok ic (Bracket neg ks) d = (neg \<noteq> list_ex (\<lambda>k. cls_ok ic k d) ks)"

subsection \<open>Matching\<close>

text \<open>
  \<open>match_here ic ns s pos\<close> matches the nodes \<open>ns\<close> at the head of \<open>s\<close>, which
  begins at offset \<open>pos\<close> of the text searched, the way the backtracking matcher
  does: a repetition takes as many characters as it can and gives them back one at a
  time.  The result is the end offset and the offsets at which the group marks were
  passed.
\<close>

fun match_here :: "bool \<Rightarrow> node list \<Rightarrow> ustring \<Rightarrow> nat \<Rightarrow> (nat \<times> nat list) option" where
  "match_here ic [] s pos = Some (pos, [])"
| "match_here ic (GroupOpen # ns) s pos =
     map_option (\<lambda>(e, ms). (e, pos # ms)) (match_here ic ns s pos)"
| "match_here ic (GroupClose # ns) s pos =
     map_option (\<lambda>(e, ms). (e, pos # ms)) (match_here ic ns s pos)"
| "match_here ic (Atom a Once # ns) [] pos = None"
| "match_here ic (Atom a Once # ns) (c # cs) pos =
     (if atom_ok ic a c then match_here ic ns cs (Suc pos) else None)"
| "match_here ic (Atom a Plus # ns) [] pos = None"
| "match_here ic (Atom a Plus # ns) (c # cs) pos =
     (if atom_ok ic a c then match_here ic (Atom a Star # ns) cs (Suc pos) else None)"
| "match_here ic (Atom a Star # ns) [] pos = match_here ic ns [] pos"
| "match_here ic (Atom a Star # ns) (c # cs) pos =
     (if atom_ok ic a c then
        (case match_here ic (Atom a Star # ns) cs (Suc pos) of
           Some r \<Rightarrow> Some r
         | None \<Rightarrow> match_here ic ns (c # cs) pos)
      else match_here ic ns (c # cs) pos)"

text \<open>The leftmost match at or after the head of \<open>s\<close>: start, end, group marks.\<close>

fun search_from :: "bool \<Rightarrow> node list \<Rightarrow> ustring \<Rightarrow> nat \<Rightarrow> (nat \<times> nat \<times> nat list) option" where
  "search_from ic ns [] pos =
     (case match_here ic ns [] pos of None \<Rightarrow> None | Some (e, ms) \<Rightarrow> Some (pos, e, ms))"
| "search_from ic ns (c # cs) pos =
     (case match_here ic ns (c # cs) pos of
        Some (e, ms) \<Rightarrow> Some (pos, e, ms)
      | None \<Rightarrow> search_from ic ns cs (Suc pos))"

text \<open>
  All non-overlapping matches from left to right; \<open>skip\<close> counts the characters still
  covered by the match found last.
\<close>

fun findall_from :: "bool \<Rightarrow> node list \<Rightarrow> ustring \<Rightarrow> nat \<Rightarrow> nat \<Rightarrow> (nat \<times> nat \<times> nat list) list" where
  "findall_from ic ns [] pos skip =
     (if 0 < skip then []
      else (case match_here ic ns [] pos of None \<Rightarrow> [] | Some (e, ms) \<Rightarrow> [(pos, e, ms)]))"
| "findall_from ic ns (c # cs) pos skip =
     (if 0 < skip then findall_from ic ns cs (Suc pos) (skip - 1)
      else (case match_here ic ns (c # cs) pos of
              None \<Rightarrow> findall_from ic ns cs (Suc pos) 0
            | Some (e, ms) \<Rightarrow> (pos, e, ms) # findall_from ic ns cs (Suc pos) (e - pos - 1)))"

subsection \<open>The functions of module \<open>re\<close>\<close>

text \<open>
  An exception is a value: what Python raises is the left summand of the result.
\<close>

datatype error = TypeError ustring | ReError | IndexError

definition and_then :: "error + 'a \<Rightarrow> ('a \<Rightarrow> error + 'b) \<Rightarrow> error + 'b" where
  "and_then m f = (case m of Inl e \<Rightarrow> Inl e | Inr x \<Rightarrow> f x)"

datatype flag = IGNORECASE | MULTILINE

record re_match =
  m_string :: ustring
  m_start :: nat
  m_end :: nat
  m_marks :: "nat list"

definition mk_match :: "ustring \<Rightarrow> nat \<times> nat \<times> nat list \<Rightarrow> re_match" where
  "mk_match text r =
     (case r of (st, e, ms) \<Rightarrow> \<lparr>m_string = text, m_start = st, m_end = e, m_marks = ms\<rparr>)"

text \<open>
  \<open>re.search(pattern, text, flags)\<close>.  \<open>re.MULTILINE\<close> changes the meaning of
  \<open>^\<close> and \<open>$\<close> only, which the fragment does not have.
\<close>

definition re_search :: "string \<Rightarrow> ustring \<Rightarrow> flag list \<Rightarrow> error + re_match option" where
  "re_search pattern text flags =
     (case re_compile pattern of
        None \<Rightarrow> Inl ReError
      | Some ns \<Rightarrow>
          Inr (map_option (mk_match text) (search_from (IGNORECASE \<in> set flags) ns text 0)))"

text \<open>
  \<open>re.findall(pattern, text)\<close>, one entry for each match; the program takes the
  length of the list only.
\<close>

definition re_findall :: "string \<Rightarrow> ustring \<Rightarrow> flag list \<Rightarrow> error + re_match list" where
  "re_findall pattern text flags =
     (case re_compile pattern of
        None \<Rightarrow> Inl ReError
      | Some ns \<Rightarrow>
          Inr (map (mk_match text) (findall_from (IGNORECASE \<in> set flags) ns text 0 0)))"

text \<open>\<open>m.group(k)\<close>: the whole match for \<open>k = 0\<close>, the text of group \<open>k\<close> otherwise.\<close>

definition match_group :: "re_match \<Rightarrow> nat \<Rightarrow> error + ustring" where
  "match_group m k =
     (if k = 0 then Inr (slice (m_string m) (m_start m) (m_end m))
      else if 2 * k \<le> length (m_marks m)
        then Inr (slice (m_string m) (m_marks m ! (2 * k - 2)) (m_marks m ! (2 * k - 1)))
      else Inl IndexError)"

section \<open>The log bundle\<close>

text \<open>
  One test case is a JSON object.  Its field \<open>logs\<close> maps a stream name to the
  stream's content, a string or a list of strings; the order of the streams is the
  order of the JSON file, and a stream name occurs once.  Its field
  \<open>original_json_data\<close> maps the names of the metadata fields to their texts.
  Either field may be missing.
\<close>

datatype content = Text ustring | Lines "ustring list"

record log_data =
  logs :: "(ustring \<times> content) list option"
  original_json_data :: "(ustring \<rightharpoonup> ustring) option"

definition dict_get :: "('k \<rightharpoonup> 'v) \<Rightarrow> 'k \<Rightarrow> 'v \<Rightarrow> 'v" where
  "dict_get d k dflt = (case d k of None \<Rightarrow> dflt | Some v \<Rightarrow> v)"

text \<open>
  \<open>type_error_concat\<close> is the message of the \<open>TypeError\<close> that \<open>list + str\<close> raises,
  \<open>type_error_findall\<close> that of \<open>re.findall\<close> on a list.
\<close>

definition type_error_concat :: ustring where
  "type_error_concat =
     ustr ''can only concatenate list (not '' @ [34] @ ustr ''str'' @ [34] @ ustr '') to list''"

definition type_error_findall :: ustring where
  "type_error_findall =
     ustr ''expected string or bytes-like object, got '' @ [39] @ ustr ''list'' @ [39]"

section \<open>The pattern catalogue (\<open>LogAnalyzer.__init__\<close>, \<open>LogClassifier.__init__\<close>)\<close>

text \<open>
  The four lists are the same in both classes.  Where a pattern of the source has a
  backslash, the literal is cut there and \<open>bs\<close> stands in its place.
\<close>

definition crash_patterns :: "string list" where
  "crash_patterns =
     [''Assertion.*failed'',
      ''Assert_Exit_'',
      ''Exiting execution'',
      ''exit_fun'',
      ''Segmentation fault'',
      ''config_execcheck.*failed'',
      ''fatal'',
      ''abort'' @ bs # ''('' @ bs # '')'',
      ''core dump'']"

definition abnormal_patterns :: "string list" where
  "abnormal_patterns =
     [''ERROR'',
      ''CRITICAL'',
      ''failed.*initialization'',
      ''failed.*init'',
      ''Connection.*failed'',
      ''timeout.*exceeded'',
      ''retry.*limit'']"

definition ue_failure_patterns :: "string list" where
  "ue_failure_patterns =
     [''RA procedure.*failed'',
      ''RRC.*reject'',
      ''Registration.*reject'',
      ''PDU.*session.*failed'',
      ''attach.*failed'',
      ''connection.*reject'',
      ''UE.*connection.*failed'']"

definition success_patterns :: "string list" where
  "success_patterns =
     [''PDU Session Establishment Accept'',
      ''RA procedure succeeded'',
      ''RRC_CONNECTED reached'',
      ''CBRA procedure succeeded'',
      ''successfully configured.*IPv4'',
      ''Received PDU Session Establishment Accept'']"

text \<open>The three patterns written inside \<open>classify_severity\<close>.\<close>

definition assertion_pattern :: string where
  "assertion_pattern = ''Assertion '' @ bs # ''(([^)]+)'' @ bs # '') failed''"

definition ipv4_pattern :: string where
  "ipv4_pattern = ''IPv4'' @ bs # ''s+['' @ bs # ''d'' @ bs # ''.]+''"

definition connect_pattern :: string where
  "connect_pattern = ''connect'' @ bs # ''('' @ bs # '').*failed''"

section \<open>The texts the classifier builds\<close>

text \<open>
  Each f-string of \<open>classify_severity\<close>, with the code points of its fixed parts.
\<close>

definition root_cause_crash :: "ustring \<Rightarrow> ustring \<Rightarrow> ustring" where
  "root_cause_crash filename error_type =
    [0x7D44, 0x4EF6, 0x5D29, 0x6F70, 0xFF1A, 0x5728] @ ustr '' '' @ filename @ ustr '' ''
      @ [0x4E2D, 0x5075, 0x6E2C, 0x5230] @ ustr '' assertion '' @ [0x5931, 0x6557, 0x6216]
      @ ustr '' exit'' @ [0xFF0C, 0x932F, 0x8AA4, 0x985E, 0x578B, 0xFF1A] @ error_type"

definition root_cause_success :: "ustring \<Rightarrow> ustring" where
  "root_cause_success filename =
    [0x7121, 0x932F, 0x8AA4, 0xFF1A, 0x5728] @ ustr '' '' @ filename @ ustr '' '' @ [0x4E2D]
      @ ustr '' UE ''
      @ [0x6210, 0x529F, 0x5EFA, 0x7ACB, 0x9023, 0x7DDA, 0x4E26, 0x7372, 0x53D6]
      @ ustr '' IP''
      @ [0xFF0C, 0x6240, 0x6709, 0x4E3B, 0x8981, 0x6D41, 0x7A0B, 0x6B63, 0x5E38, 0x5B8C, 0x6210]"

definition ipv4_evidence :: "ustring \<Rightarrow> ustring" where
  "ipv4_evidence ipv4 =
    ustr ''IPv4'' @ [0x914D, 0x7F6E, 0x6210, 0x529F] @ ustr '': '' @ ipv4"

definition root_cause_ue_failure :: "ustring \<Rightarrow> ustring" where
  "root_cause_ue_failure affected_module =
    ustr ''UE ''
      @ [0x9023, 0x7DDA, 0x5931, 0x6557, 0xFF1A, 0x7D44, 0x4EF6, 0x555F, 0x52D5, 0x6B63, 0x5E38, 0x4F46]
      @ ustr '' UE '' @ [0x7121, 0x6CD5, 0x5B8C, 0x6210, 0x9023, 0x7DDA, 0xFF0C, 0x5728]
      @ ustr '' '' @ affected_module @ ustr '' ''
      @ [0x6A21, 0x7D44, 0x5075, 0x6E2C, 0x5230, 0x5931, 0x6557]"

definition root_cause_abnormal :: "ustring \<Rightarrow> ustring \<Rightarrow> ustring \<Rightarrow> ustring" where
  "root_cause_abnormal filename affected_module impact_desc =
    [0x7D44, 0x4EF6, 0x7570, 0x5E38, 0x904B, 0x884C, 0xFF1A, 0x5728] @ ustr '' '' @ filename
      @ ustr '' '' @ [0x4E2D] @ ustr '' '' @ affected_module @ ustr '' ''
      @ [0x6A21, 0x7D44, 0x51FA, 0x73FE, 0x932F, 0x8AA4, 0x4F46, 0x672A, 0x5D29, 0x6F70, 0xFF0C]
      @ impact_desc"

definition root_cause_retry :: "nat \<Rightarrow> ustring" where
  "root_cause_retry connect_failures =
    ustr ''UE '' @ [0x9023, 0x7DDA, 0x5931, 0x6557, 0xFF1A] @ ustr ''UE ''
      @ [0x7121, 0x6CD5, 0x9023, 0x63A5, 0x5230] @ ustr '' DU ('' @ [0x91CD, 0x8A66]
      @ ustr '' '' @ str_of_nat connect_failures @ ustr '' '' @ [0x6B21] @ ustr '')''"

definition root_cause_metadata :: "ustring \<Rightarrow> ustring \<Rightarrow> ustring" where
  "root_cause_metadata error_type filename =
    [0x53EF, 0x80FD, 0x7570, 0x5E38, 0xFF1A, 0x914D, 0x7F6E, 0x932F, 0x8AA4] @ ustr '' (''
      @ error_type @ ustr '') '' @ [0x5728] @ ustr '' '' @ filename @ [0xFF0C, 0x4F46]
      @ ustr '' log ''
      @ [0x4E2D, 0x7121, 0x660E, 0x78BA, 0x5D29, 0x6F70, 0x6216, 0x5931, 0x6557, 0x8A0A, 0x606F]"

definition root_cause_residual :: "ustring \<Rightarrow> ustring" where
  "root_cause_residual filename =
    [0x7121, 0x932F, 0x8AA4, 0xFF1A, 0x5728] @ ustr '' '' @ filename @ ustr '' ''
      @ [0x4E2D, 0x672A, 0x767C, 0x73FE, 0x660E, 0x986F, 0x932F, 0x8AA4, 0xFF0C, 0x6709, 0x6210, 0x529F, 0x9023, 0x7DDA, 0x7684, 0x8DE1, 0x8C61]"

definition root_cause_uncertain :: "ustring \<Rightarrow> ustring" where
  "root_cause_uncertain filename =
    [0x7121, 0x6CD5, 0x5224, 0x65B7, 0xFF1A] @ ustr ''log ''
      @ [0x8CC7, 0x8A0A, 0x4E0D, 0x8DB3, 0x4EE5, 0x660E, 0x78BA, 0x5206, 0x985E, 0xFF0C, 0x6A94, 0x6848]
      @ ustr '' '' @ filename"

section \<open>\<open>check_patterns\<close>\<close>

fun check_patterns_loop :: "ustring \<Rightarrow> string list \<Rightarrow> ustring list \<Rightarrow> error + ustring list" where
  "check_patterns_loop text [] matches = Inr matches"
| "check_patterns_loop text (pattern # patterns) matches =
     and_then (re_search pattern text [IGNORECASE, MULTILINE])
       (\<lambda>m. check_patterns_loop text patterns
               (if m \<noteq> None then matches @ [ustr pattern] else matches))"

definition check_patterns :: "ustring \<Rightarrow> string list \<Rightarrow> error + (bool \<times> ustring list)" where
  "check_patterns text patterns =
     and_then (check_patterns_loop text patterns [])
       (\<lambda>matches. Inr (0 < length matches, matches))"

section \<open>\<open>classify_severity\<close>\<close>

text \<open>
  \<open>LogAnalyzer.classify_severity\<close> of \<open>analyze_logs.py\<close> and
  \<open>LogClassifier.classify_severity\<close> of \<open>classify_and_organize.py\<close> have the same
  body, statement for statement.  The result is the tuple the function returns:
  severity stage, root cause summary, evidence keywords, confidence.  The confidence
  constants of the source are decimal literals and no arithmetic is done on them; they
  are the rational numbers the literals denote.
\<close>

type_synonym verdict = "int \<times> ustring \<times> ustring list \<times> real"

text \<open>The loop that combines all logs: \<open>all_logs += log_content + "\n"\<close>.\<close>

fun combine_logs :: "(ustring \<times> content) list \<Rightarrow> ustring \<Rightarrow> error + ustring" where
  "combine_logs [] all_logs = Inr all_logs"
| "combine_logs ((log_key, Text log_content) # items) all_logs =
     combine_logs items (all_logs @ (log_content @ [newline]))"
| "combine_logs ((log_key, Lines log_content) # items) all_logs =
     Inl (TypeError type_error_concat)"

text \<open>\<open>all_logs\<close> after the loop; without the field \<open>logs\<close> it stays empty.\<close>

definition combined_logs :: "log_data \<Rightarrow> error + ustring" where
  "combined_logs log_data =
     (case logs log_data of None \<Rightarrow> Inr [] | Some items \<Rightarrow> combine_logs items [])"

text \<open>\<open>log_data.get("original_json_data", {})\<close>\<close>

definition get_metadata :: "log_data \<Rightarrow> (ustring \<rightharpoonup> ustring)" where
  "get_metadata log_data =
     (case original_json_data log_data of None \<Rightarrow> Map.empty | Some d \<Rightarrow> d)"

text \<open>\<open>log_data.get("logs", {}).get("ue.stdout.log", "")\<close>\<close>

definition get_ue_log :: "log_data \<Rightarrow> content" where
  "get_ue_log log_data =
     dict_get (map_of (case logs log_data of None \<Rightarrow> [] | Some items \<Rightarrow> items))
       (ustr ''ue.stdout.log'') (Text [])"

text \<open>\<open>sub in ue_log\<close>, where \<open>ue_log\<close> is whatever the bundle holds for the stream.\<close>

definition content_in :: "ustring \<Rightarrow> content \<Rightarrow> bool" where
  "content_in sub c = (case c of Text t \<Rightarrow> str_in sub t | Lines ls \<Rightarrow> sub \<in> set ls)"

definition findall_content :: "string \<Rightarrow> content \<Rightarrow> error + re_match list" where
  "findall_content pattern c =
     (case c of Text t \<Rightarrow> re_findall pattern t []
      | Lines ls \<Rightarrow> Inl (TypeError type_error_findall))"

text \<open>
  The statements after the success check, from \<open>Priority 2\<close> to the last
  \<open>return\<close>.  \<open>defaults\<close> is what is left when the check of the UE log returns
  nothing: the metadata default, the weak success, the uncertain case.
\<close>

definition classify_severity_rest ::
  "log_data \<Rightarrow> ustring \<Rightarrow> ustring \<Rightarrow> ustring \<Rightarrow> ustring \<Rightarrow> ustring \<Rightarrow> bool
     \<Rightarrow> ustring list \<Rightarrow> ustring list \<Rightarrow> error + verdict" where
  "classify_severity_rest log_data all_logs filename affected_module error_type impact_desc
      has_success success_evidence evidence =
     and_then (check_patterns all_logs ue_failure_patterns) (\<lambda>(has_ue_failure, ue_failure_evidence).
     if has_ue_failure then
       Inr (3, root_cause_ue_failure affected_module, evidence @ ue_failure_evidence, 0.85)
     else
     and_then (check_patterns all_logs abnormal_patterns) (\<lambda>(has_abnormal, abnormal_evidence).
     if has_abnormal then
       Inr (2, root_cause_abnormal filename affected_module impact_desc,
            evidence @ abnormal_evidence, 0.70)
     else
       let ue_log = get_ue_log log_data;
           defaults =
             (if error_type \<noteq> [] \<and> error_type \<noteq> [] then
                Inr (2, root_cause_metadata error_type filename,
                     evidence @ [ustr ''Config error: '' @ error_type]
                       @ [ustr ''Impact: '' @ impact_desc], 0.50)
              else if has_success then
                Inr (0, root_cause_residual filename, evidence @ success_evidence, 0.70)
              else
                Inr (0, root_cause_uncertain filename,
                     evidence @ [ustr ''Insufficient log information''], 0.30))
       in
         if content_in (ustr ''connect() to'') ue_log \<and> content_in (ustr ''failed, errno'') ue_log then
           if \<not> has_success then
             and_then (findall_content connect_pattern ue_log) (\<lambda>found.
               let connect_failures = length found in
               if 10 < connect_failures then
                 Inr (3, root_cause_retry connect_failures,
                      evidence @ [str_of_nat connect_failures @ ustr '' connection attempts failed''],
                      0.80)
               else defaults)
           else defaults
         else defaults))"

definition classify_severity :: "log_data \<Rightarrow> error + verdict" where
  "classify_severity log_data =
     and_then (combined_logs log_data) (\<lambda>all_logs.
     let metadata = get_metadata log_data;
         filename = dict_get metadata (ustr ''filename'') (ustr ''unknown'');
         affected_module = dict_get metadata (ustr ''affected_module'') (ustr ''Unknown'');
         error_type = dict_get metadata (ustr ''error_type'') [];
         impact_desc = dict_get metadata (ustr ''impact_description'') [];
         evidence = []
     in
     and_then (check_patterns all_logs crash_patterns) (\<lambda>(has_crash, crash_evidence).
     if has_crash then
       let evidence = evidence @ crash_evidence;
           root_cause = root_cause_crash filename error_type
       in
         if str_in (ustr ''Assertion'') all_logs \<and> str_in (ustr ''failed'') all_logs then
           and_then (re_search assertion_pattern all_logs []) (\<lambda>assertion_match.
             case assertion_match of
               Some m \<Rightarrow>
                 and_then (match_group m 1) (\<lambda>g.
                   Inr (1, root_cause, evidence @ [ustr ''Assertion: '' @ g], 0.95))
             | None \<Rightarrow> Inr (1, root_cause, evidence, 0.95))
         else Inr (1, root_cause, evidence, 0.95)
     else
     and_then (check_patterns all_logs success_patterns) (\<lambda>(has_success, success_evidence).
     let rest = classify_severity_rest log_data all_logs filename affected_module error_type
                  impact_desc has_success success_evidence evidence
     in
       if has_success then
         let pdu_session_accept = str_in (ustr ''PDU Session Establishment Accept'') all_logs;
             rrc_connected = str_in (ustr ''RRC_CONNECTED reached'') all_logs;
             cbra_succeeded = str_in (ustr ''CBRA procedure succeeded'') all_logs
         in
           and_then (re_search ipv4_pattern all_logs []) (\<lambda>ipv4_configured.
             let success_count =
                   sum_list (map of_bool
                     [pdu_session_accept, rrc_connected, cbra_succeeded, ipv4_configured \<noteq> None]) :: nat
             in
               if 2 \<le> success_count then
                 (case ipv4_configured of
                    Some m \<Rightarrow>
                      and_then (match_group m 0) (\<lambda>g.
                        Inr (0, root_cause_success filename,
                             evidence @ success_evidence @ [ipv4_evidence g], 0.90))
                  | None \<Rightarrow>
                      Inr (0, root_cause_success filename, evidence @ success_evidence, 0.90))
               else rest)
       else rest)))"

section \<open>\<open>LogAnalyzer.analyze_file\<close>\<close>

text \<open>
  \<open>filename.upper()\<close> changes the ASCII letters here; no other code point has an
  upper case in which one of the letters \<open>D\<close>, \<open>U\<close>, \<open>C\<close>, \<open>E\<close> occurs, which are
  all that \<open>extract_component_from_filename\<close> looks for.
\<close>

definition upper :: "ustring \<Rightarrow> ustring" where
  "upper s = map (\<lambda>c. if 97 \<le> c \<and> c \<le> 122 then c - 32 else c) s"

definition extract_component_from_filename :: "ustring \<Rightarrow> ustring" where
  "extract_component_from_filename filename =
     (let filename_upper = upper filename in
      if str_in (ustr ''DU'') filename_upper then ustr ''DU''
      else if str_in (ustr ''CU'') filename_upper then ustr ''CU''
      else if str_in (ustr ''UE'') filename_upper then ustr ''UE''
      else ustr ''Unknown'')"

text \<open>
  The path of the file, as far as \<open>analyze_file\<close> reads it: \<open>str(filepath)\<close>,
  \<open>filepath.parent.name\<close> and \<open>filepath.name\<close>.
\<close>

record filepath =
  path_str :: ustring
  parent_name :: ustring
  name :: ustring

record result =
  case_id :: ustring
  severity_stage :: int
  root_cause_summary :: ustring
  evidence_keywords :: "ustring list"
  component :: ustring
  confidence :: real

text \<open>
  \<open>str(e)\<close> for the exceptions of the classifier.  The patterns of the program
  compile and the groups it reads exist, so of the three only the \<open>TypeError\<close> is
  ever raised; the text given for a pattern error stands for the message of
  \<open>re.error\<close>, which depends on the fault of the pattern.
\<close>

fun error_str :: "error \<Rightarrow> ustring" where
  "error_str (TypeError msg) = msg"
| "error_str ReError = ustr ''bad pattern''"
| "error_str IndexError = ustr ''no such group''"

definition processing_error :: "filepath \<Rightarrow> ustring \<Rightarrow> result" where
  "processing_error fp msg =
     \<lparr>case_id = path_str fp,
      severity_stage = - 1,
      root_cause_summary = ustr ''Error processing file: '' @ msg,
      evidence_keywords = [msg],
      component = ustr ''Error'',
      confidence = 0.0\<rparr>"

text \<open>
  Opening the file and \<open>json.load\<close> are the environment: \<open>loaded\<close> is what they
  produce, the message of the exception they raise (\<open>Inl\<close>) or the bundle read
  (\<open>Inr\<close>).  \<open>analyze_file_with\<close> takes the classifier as an argument;
  \<open>analyze_file\<close> is the method of the source, which calls \<open>classify_severity\<close>.
  The \<open>except\<close> clause covers the whole body, so an exception of the classifier
  gives the record of a processing error as well.  The local \<open>case_id\<close> of the
  source is assigned and never read.
\<close>

definition analyze_file_with ::
  "(log_data \<Rightarrow> error + verdict) \<Rightarrow> filepath \<Rightarrow> ustring + log_data \<Rightarrow> result" where
  "analyze_file_with classify fp loaded =
     (case loaded of
        Inl msg \<Rightarrow> processing_error fp msg
      | Inr log_data \<Rightarrow>
          let metadata = get_metadata log_data;
              filename = dict_get metadata (ustr ''filename'') (ustr ''unknown'')
          in
            (case classify log_data of
               Inl e \<Rightarrow> processing_error fp (error_str e)
             | Inr (severity, root_cause, evidence, conf) \<Rightarrow>
                 \<lparr>case_id = parent_name fp @ ustr ''/'' @ name fp,
                  severity_stage = severity,
                  root_cause_summary = root_cause,
                  evidence_keywords = evidence,
                  component = extract_component_from_filename filename,
                  confidence = conf\<rparr>))"

definition analyze_file :: "filepath \<Rightarrow> ustring + log_data \<Rightarrow> result" where
  "analyze_file fp loaded = analyze_file_with classify_severity fp loaded"

section \<open>Vocabulary of the properties\<close>

text \<open>
  The severity stages, as \<open>severity_labels\<close> of \<open>main\<close> names them: 0 is
  ``No Error'', 1 ``Component Crash'', 2 ``Component Abnormal'', 3 ``UE Connection
  Failed'' and -1 ``Processing Error''.
\<close>

definition NoError :: int where
  "NoError = 0"

definition ComponentCrash :: int where
  "ComponentCrash = 1"

definition ComponentAbnormal :: int where
  "ComponentAbnormal = 2"

definition ConnectionFailure :: int where
  "ConnectionFailure = 3"

definition ProcessingError :: int where
  "ProcessingError = - 1"

text \<open>
  A pattern of a tier matches a text when \<open>re.search\<close> with the flags of
  \<open>check_patterns\<close> finds a match; a tier fires when one of its patterns matches.
\<close>

definition pattern_matches :: "string \<Rightarrow> ustring \<Rightarrow> bool" where
  "pattern_matches pattern text =
     (case re_search pattern text [IGNORECASE, MULTILINE] of
        Inr (Some m) \<Rightarrow> True
      | _ \<Rightarrow> False)"

definition tier_fires :: "string list \<Rightarrow> ustring \<Rightarrow> bool" where
  "tier_fires patterns text = list_ex (\<lambda>p. pattern_matches p text) patterns"

text \<open>The same for a search without flags, as the two searches inside the cascade are.\<close>

definition regex_found :: "string \<Rightarrow> ustring \<Rightarrow> bool" where
  "regex_found pattern text =
     (case re_search pattern text [] of Inr (Some m) \<Rightarrow> True | _ \<Rightarrow> False)"

text \<open>The patterns of a tier that match, in the order of the catalogue, as evidence.\<close>

definition tier_evidence :: "string list \<Rightarrow> ustring \<Rightarrow> ustring list" where
  "tier_evidence patterns text = map ustr (filter (\<lambda>p. pattern_matches p text) patterns)"

text \<open>The number of the four success signals that a corpus shows.\<close>

definition success_signals :: "ustring \<Rightarrow> nat" where
  "success_signals all_logs =
     sum_list (map of_bool
       [str_in (ustr ''PDU Session Establishment Accept'') all_logs,
        str_in (ustr ''RRC_CONNECTED reached'') all_logs,
        str_in (ustr ''CBRA procedure succeeded'') all_logs,
        regex_found ipv4_pattern all_logs])"

text \<open>The entry that the success branch adds to the evidence for the IPv4 address.\<close>

definition ipv4_entries :: "ustring \<Rightarrow> ustring list" where
  "ipv4_entries all_logs =
     (case re_search ipv4_pattern all_logs [] of
        Inr (Some m) \<Rightarrow> [ipv4_evidence (slice all_logs (m_start m) (m_end m))]
      | _ \<Rightarrow> [])"

text \<open>The entry that the crash branch adds to the evidence for the assertion.\<close>

definition assertion_evidence :: "ustring \<Rightarrow> ustring list" where
  "assertion_evidence all_logs =
     (if str_in (ustr ''Assertion'') all_logs \<and> str_in (ustr ''failed'') all_logs then
        (case re_search assertion_pattern all_logs [] of
           Inr (Some m) \<Rightarrow>
             (case match_group m 1 of Inr g \<Rightarrow> [ustr ''Assertion: '' @ g] | Inl e \<Rightarrow> [])
         | _ \<Rightarrow> [])
      else [])"

text \<open>The number of connect failures that the cascade counts in a UE log.\<close>

definition connect_failure_count :: "ustring \<Rightarrow> nat" where
  "connect_failure_count ue_log =
     (case re_findall connect_pattern ue_log [] of Inr found \<Rightarrow> length found | Inl e \<Rightarrow> 0)"

text \<open>The UE stream of a bundle satisfies the heuristic of repeated connection attempts.\<close>

definition repeated_connection_attempts :: "log_data \<Rightarrow> bool" where
  "repeated_connection_attempts log_data =
     (case get_ue_log log_data of
        Text ue_log \<Rightarrow>
          str_in (ustr ''connect() to'') ue_log \<and> str_in (ustr ''failed, errno'') ue_log
          \<and> 10 < connect_failure_count ue_log
      | Lines ls \<Rightarrow> False)"

text \<open>
  Every stream of the bundle is a string, as the files that \<open>merge_case_logs.py\<close>
  writes for the classifier have them; a bundle without the field \<open>logs\<close> has no
  stream.
\<close>

fun is_text :: "content \<Rightarrow> bool" where
  "is_text (Text t) = True"
| "is_text (Lines ls) = False"

definition text_streams :: "log_data \<Rightarrow> bool" where
  "text_streams log_data =
     (case logs log_data of
        None \<Rightarrow> True
      | Some items \<Rightarrow> list_all (\<lambda>(log_key, log_content). is_text log_content) items)"

text \<open>A metadata field of a bundle, with the default of \<open>classify_severity\<close>.\<close>

definition meta :: "log_data \<Rightarrow> string \<Rightarrow> ustring \<Rightarrow> ustring" where
  "meta log_data key dflt = dict_get (get_metadata log_data) (ustr key) dflt"

text \<open>
  Severity and confidence of the eight \<open>return\<close> statements of \<open>classify_severity\<close>,
  in the order of the source.
\<close>

definition rule_outcomes :: "(int \<times> real) list" where
  "rule_outcomes =
     [(1, 0.95), (0, 0.90), (3, 0.85), (2, 0.70), (3, 0.80), (2, 0.50), (0, 0.70), (0, 0.30)]"

text \<open>The nodes of a pattern that spells a text; the group marks of a pattern.\<close>

definition lits :: "ustring \<Rightarrow> node list" where
  "lits xs = map (\<lambda>c. Atom (One (CChar c)) Once) xs"

fun is_mark :: "node \<Rightarrow> bool" where
  "is_mark GroupOpen = True"
| "is_mark GroupClose = True"
| "is_mark (Atom a q) = False"

section \<open>Sample bundles\<close>

text \<open>A bundle of one stream, without metadata.\<close>

definition one_stream :: "ustring \<Rightarrow> ustring \<Rightarrow> log_data" where
  "one_stream key log_content =
     \<lparr>logs = Some [(key, Text log_content)], original_json_data = None\<rparr>"

text \<open>A distributed unit that crashes after the UE had connected.\<close>

definition crash_after_success_log :: ustring where
  "crash_after_success_log =
     ustr ''RRC_CONNECTED reached; PDU Session Establishment Accept; Segmentation fault''"

text \<open>A UE that connects and is given an address.\<close>

definition connected_log :: ustring where
  "connected_log =
     ustr ''Received PDU Session Establishment Accept; RRC_CONNECTED reached; IPv4 10.0.0.5''"

text \<open>No streams at all; a stream that shows nothing, with a file name in the metadata.\<close>

definition empty_bundle :: log_data where
  "empty_bundle = \<lparr>logs = Some [], original_json_data = None\<rparr>"

definition quiet_bundle :: log_data where
  "quiet_bundle =
     \<lparr>logs = Some [(ustr ''cu.stdout.log'', Text (ustr ''gNB started''))],
      original_json_data = Some (Map.empty(ustr ''filename'' \<mapsto> ustr ''cu_case_01.json''))\<rparr>"

text \<open>One success pattern and nothing else; the same with an error type.\<close>

definition weak_success_log :: ustring where
  "weak_success_log = ustr ''RA procedure succeeded''"

definition weak_success_with_error_type :: log_data where
  "weak_success_with_error_type =
     \<lparr>logs = Some [(ustr ''ue.stdout.log'', Text weak_success_log)],
      original_json_data = Some (Map.empty(ustr ''error_type'' \<mapsto> ustr ''invalid_value''))\<rparr>"

text \<open>A UE log of ten and of eleven failed connection attempts.\<close>

definition retry_line :: ustring where
  "retry_line = ustr ''connect()failed'' @ [newline]"

definition ten_failures :: ustring where
  "ten_failures =
     ustr ''connect() to du failed, errno'' @ [newline] @ concat (replicate 9 retry_line)"

definition eleven_failures :: ustring where
  "eleven_failures =
     ustr ''connect() to du failed, errno'' @ [newline] @ concat (replicate 10 retry_line)"

text \<open>A stream given as a list of lines.\<close>

definition list_stream_bundle :: log_data where
  "list_stream_bundle =
     \<lparr>logs = Some [(ustr ''du.stdout.log'', Lines [ustr ''line 1'', ustr ''line 2''])],
      original_json_data = None\<rparr>"

text \<open>The assertion message of the distributed unit, alone and after another assertion.\<close>

definition assertion_message :: ustring where
  "assertion_message = ustr ''Assertion (num_tx >= config.pdsch_AntennaPorts.XP) failed!''"

definition assertion_expression :: ustring where
  "assertion_expression = ustr ''num_tx >= config.pdsch_AntennaPorts.XP''"

definition assertion_log :: ustring where
  "assertion_log = ustr ''[GNB_APP] '' @ assertion_message"

definition assertion_match :: re_match where
  "assertion_match =
     \<lparr>m_string = assertion_log @ [newline], m_start = 10, m_end = 67, m_marks = [21, 59]\<rparr>"

definition two_assertions_log :: ustring where
  "two_assertions_log = ustr ''Assertion (a) failed; '' @ assertion_message"

section \<open>Facts about the library model\<close>

lemma and_then_Inr [simp]: "and_then (Inr x) f = f x"
  by (simp add: and_then_def)

lemma and_then_Inl [simp]: "and_then (Inl e) f = Inl e"
  by (simp add: and_then_def)

lemma startswith_iff: "startswith s p = (\<exists>r. s = p @ r)"
  by (induction s p rule: startswith.induct) auto

lemma str_in_iff: "str_in sub s = (\<exists>p r. s = p @ sub @ r)"
proof (induction s)
  case Nil
  show ?case by auto
next
  case (Cons c cs)
  show ?case
  proof
    assume "str_in sub (c # cs)"
    then consider "startswith (c # cs) sub" | "str_in sub cs" by auto
    then show "\<exists>p r. c # cs = p @ sub @ r"
    proof cases
      case 1
      then obtain r where "c # cs = sub @ r" by (auto simp: startswith_iff)
      then have "c # cs = [] @ sub @ r" by simp
      then show ?thesis by blast
    next
      case 2
      with Cons.IH obtain p r where "cs = p @ sub @ r" by blast
      then have "c # cs = (c # p) @ sub @ r" by simp
      then show ?thesis by blast
    qed
  next
    assume "\<exists>p r. c # cs = p @ sub @ r"
    then obtain p r where eq: "c # cs = p @ sub @ r" by blast
    show "str_in sub (c # cs)"
    proof (cases p)
      case Nil
      with eq have "startswith (c # cs) sub" by (auto simp: startswith_iff)
      then show ?thesis by simp
    next
      case (Cons d p')
      with eq have "cs = p' @ sub @ r" by simp
      with Cons.IH have "str_in sub cs" by blast
      then show ?thesis by simp
    qed
  qed
qed

text \<open>A match passes every group mark of the pattern once.\<close>

lemma match_here_marks:
  "match_here ic ns s pos = Some (e, ms) \<Longrightarrow> length ms = length (filter is_mark ns)"
  by (induction ic ns s pos arbitrary: e ms rule: match_here.induct)
     (auto split: if_splits option.splits)

text \<open>What \<open>search_from\<close> returns is a match at the offset where it starts.\<close>

lemma search_from_match:
  "search_from ic ns s pos = Some (st, e, ms) \<Longrightarrow>
   \<exists>k \<le> length s. st = pos + k \<and> match_here ic ns (drop k s) st = Some (e, ms)"
proof (induction s arbitrary: pos)
  case Nil
  then show ?case by (auto split: option.splits)
next
  case (Cons c cs)
  show ?case
  proof (cases "match_here ic ns (c # cs) pos")
    case None
    with Cons.prems have "search_from ic ns cs (Suc pos) = Some (st, e, ms)" by simp
    from Cons.IH [OF this] obtain k where "k \<le> length cs" "st = Suc pos + k"
      "match_here ic ns (drop k cs) st = Some (e, ms)" by blast
    then show ?thesis by (intro exI [of _ "Suc k"]) simp
  next
    case (Some r)
    with Cons.prems show ?thesis by (intro exI [of _ 0]) (auto split: prod.splits)
  qed
qed

text \<open>A match somewhere in the text is enough for \<open>search_from\<close> to find one.\<close>

lemma search_from_some:
  "match_here ic ns r (pos + length p) \<noteq> None \<Longrightarrow> search_from ic ns (p @ r) pos \<noteq> None"
proof (induction p arbitrary: pos)
  case Nil
  then show ?case by (cases r) (auto split: option.splits)
next
  case (Cons c p)
  from Cons.prems have "search_from ic ns (p @ r) (Suc pos) \<noteq> None"
    by (intro Cons.IH) simp
  then show ?case by (auto split: option.splits)
qed

text \<open>Literal nodes consume the text they spell, whatever the case flag.\<close>

lemma match_here_lits:
  "match_here ic (lits xs @ ns) (xs @ r) pos = match_here ic ns r (pos + length xs)"
  by (induction xs arbitrary: pos) (simp_all add: lits_def)

text \<open>A greedy repetition finds a match if some split of the text gives one.\<close>

lemma match_here_star_some:
  "\<forall>c \<in> set u. atom_ok ic a c \<Longrightarrow> match_here ic ns v (pos + length u) \<noteq> None \<Longrightarrow>
   match_here ic (Atom a Star # ns) (u @ v) pos \<noteq> None"
proof (induction u arbitrary: pos)
  case Nil
  then show ?case by (cases v) (auto split: option.splits)
next
  case (Cons x u)
  from Cons.prems have "match_here ic (Atom a Star # ns) (u @ v) (Suc pos) \<noteq> None"
    by (intro Cons.IH) simp_all
  with Cons.prems show ?case by (auto split: option.splits)
qed

lemma re_search_compiled:
  "re_compile p = Some ns \<Longrightarrow>
   re_search p t flags =
     Inr (map_option (mk_match t) (search_from (IGNORECASE \<in> set flags) ns t 0))"
  by (simp add: re_search_def)

lemma pattern_matches_compiled:
  "re_compile p = Some ns \<Longrightarrow> pattern_matches p t = (search_from True ns t 0 \<noteq> None)"
  by (cases "search_from True ns t 0") (simp_all add: pattern_matches_def re_search_def)

lemma match_group_0: "match_group m 0 = Inr (slice (m_string m) (m_start m) (m_end m))"
  by (simp add: match_group_def)

text \<open>A text that holds a literal is found by the pattern that spells it.\<close>

lemma literal_found:
  assumes "re_compile p = Some (lits (ustr p))" and "str_in (ustr p) t"
  shows "pattern_matches p t"
proof -
  from assms(2) obtain pre post where t: "t = pre @ ustr p @ post" by (auto simp: str_in_iff)
  have "match_here True (lits (ustr p) @ []) (ustr p @ post) (0 + length pre) \<noteq> None"
    by (simp only: match_here_lits) simp
  then have "search_from True (lits (ustr p)) (pre @ ustr p @ post) 0 \<noteq> None"
    by (intro search_from_some) simp
  with assms(1) t show ?thesis by (simp add: pattern_matches_compiled)
qed

text \<open>Two literals on one line are found by the pattern that joins them with \<open>.*\<close>.\<close>

lemma dotstar_found:
  assumes "re_compile p = Some (lits a @ Atom AnyChar Star # lits f)"
    and "t = pre @ a @ mid @ f @ post" and "newline \<notin> set mid"
  shows "pattern_matches p t"
proof -
  have "match_here True (lits f @ []) (f @ post) (length pre + length a + length mid) \<noteq> None"
    by (simp only: match_here_lits) simp
  then have "match_here True (Atom AnyChar Star # lits f) (mid @ f @ post)
      (length pre + length a) \<noteq> None"
    using assms(3) by (intro match_here_star_some) auto
  then have "match_here True (lits a @ Atom AnyChar Star # lits f) (a @ mid @ f @ post)
      (0 + length pre) \<noteq> None"
    by (simp add: match_here_lits)
  then have "search_from True (lits a @ Atom AnyChar Star # lits f) (pre @ a @ mid @ f @ post) 0
      \<noteq> None"
    by (rule search_from_some)
  with assms(1,2) show ?thesis by (simp add: pattern_matches_compiled)
qed

section \<open>Facts about the pattern catalogue\<close>

lemmas compile_eval = re_compile_def is_ascii_def special_chars_def bs_def

lemma crash_patterns_compile: "\<forall>p \<in> set crash_patterns. re_compile p \<noteq> None"
  by (simp add: crash_patterns_def compile_eval)

lemma success_patterns_compile: "\<forall>p \<in> set success_patterns. re_compile p \<noteq> None"
  by (simp add: success_patterns_def compile_eval)

lemma ue_failure_patterns_compile: "\<forall>p \<in> set ue_failure_patterns. re_compile p \<noteq> None"
  by (simp add: ue_failure_patterns_def compile_eval)

lemma abnormal_patterns_compile: "\<forall>p \<in> set abnormal_patterns. re_compile p \<noteq> None"
  by (simp add: abnormal_patterns_def compile_eval)

lemma assertion_pattern_compile:
  "re_compile assertion_pattern =
     Some (lits (ustr ''Assertion ('')
           @ [GroupOpen, Atom (Bracket True [CChar 41]) Plus, GroupClose]
           @ lits (ustr '') failed''))"
  by (simp add: assertion_pattern_def compile_eval ustr_def lits_def)

lemma ipv4_pattern_compile:
  "re_compile ipv4_pattern =
     Some (lits (ustr ''IPv4'')
           @ [Atom (One CSpace) Plus, Atom (Bracket False [CDigit, CChar 46]) Plus])"
  by (simp add: ipv4_pattern_def compile_eval ustr_def lits_def)

lemma connect_pattern_compile:
  "re_compile connect_pattern =
     Some (lits (ustr ''connect()'') @ [Atom AnyChar Star] @ lits (ustr ''failed''))"
  by (simp add: connect_pattern_def compile_eval ustr_def lits_def)

lemma check_patterns_loop_compiled:
  "\<forall>p \<in> set ps. re_compile p \<noteq> None \<Longrightarrow>
   check_patterns_loop t ps acc = Inr (acc @ tier_evidence ps t)"
proof (induction ps arbitrary: acc)
  case Nil
  show ?case by (simp add: tier_evidence_def)
next
  case (Cons p ps)
  from Cons.prems obtain ns where ns: "re_compile p = Some ns" by auto
  from Cons.prems have rest: "\<forall>q \<in> set ps. re_compile q \<noteq> None" by simp
  show ?case
  proof (cases "search_from True ns t 0")
    case None
    then show ?thesis
      using ns Cons.IH [OF rest]
      by (simp add: re_search_compiled pattern_matches_compiled tier_evidence_def)
  next
    case (Some r)
    then show ?thesis
      using ns Cons.IH [OF rest]
      by (simp add: re_search_compiled pattern_matches_compiled tier_evidence_def)
  qed
qed

lemma tier_evidence_empty: "(tier_evidence ps t = []) = (\<not> tier_fires ps t)"
  by (induction ps) (auto simp: tier_evidence_def tier_fires_def)

lemma check_patterns_compiled:
  "\<forall>p \<in> set ps. re_compile p \<noteq> None \<Longrightarrow>
   check_patterns t ps = Inr (tier_fires ps t, tier_evidence ps t)"
  using tier_evidence_empty [of ps t]
  by (auto simp add: check_patterns_def check_patterns_loop_compiled)

lemma check_crash [simp]:
  "check_patterns t crash_patterns =
     Inr (tier_fires crash_patterns t, tier_evidence crash_patterns t)"
  by (rule check_patterns_compiled [OF crash_patterns_compile])

lemma check_success [simp]:
  "check_patterns t success_patterns =
     Inr (tier_fires success_patterns t, tier_evidence success_patterns t)"
  by (rule check_patterns_compiled [OF success_patterns_compile])

lemma check_ue_failure [simp]:
  "check_patterns t ue_failure_patterns =
     Inr (tier_fires ue_failure_patterns t, tier_evidence ue_failure_patterns t)"
  by (rule check_patterns_compiled [OF ue_failure_patterns_compile])

lemma check_abnormal [simp]:
  "check_patterns t abnormal_patterns =
     Inr (tier_fires abnormal_patterns t, tier_evidence abnormal_patterns t)"
  by (rule check_patterns_compiled [OF abnormal_patterns_compile])

lemma re_search_assertion_total: "\<exists>r. re_search assertion_pattern t flags = Inr r"
  by (simp add: re_search_def assertion_pattern_compile)

lemma re_search_ipv4_total: "\<exists>r. re_search ipv4_pattern t flags = Inr r"
  by (simp add: re_search_def ipv4_pattern_compile)

text \<open>A match of the assertion pattern has its group.\<close>

lemma assertion_group_1:
  assumes "re_search assertion_pattern t [] = Inr (Some m)"
  shows "\<exists>g. match_group m 1 = Inr g"
proof -
  obtain ns where ns: "re_compile assertion_pattern = Some ns" "length (filter is_mark ns) = 2"
    by (simp add: assertion_pattern_compile lits_def)
  from assms ns(1) obtain r where r: "search_from False ns t 0 = Some r" "m = mk_match t r"
    by (auto simp: re_search_def)
  obtain st e ms where [simp]: "r = (st, e, ms)" by (cases r)
  from search_from_match r(1) obtain k where "match_here False ns (drop k t) st = Some (e, ms)"
    by fastforce
  from match_here_marks [OF this] ns(2) have "length ms = 2" by simp
  then show ?thesis by (simp add: match_group_def r(2) mk_match_def)
qed

lemma assertion_evidence_found:
  "str_in (ustr ''Assertion'') t \<Longrightarrow> str_in (ustr ''failed'') t \<Longrightarrow>
   re_search assertion_pattern t [] = Inr (Some m) \<Longrightarrow> match_group m 1 = Inr g \<Longrightarrow>
   assertion_evidence t = [ustr ''Assertion: '' @ g]"
  by (simp add: assertion_evidence_def)

text \<open>Each of the three literal success signals makes the success tier fire.\<close>

lemma pdu_found:
  "str_in (ustr ''PDU Session Establishment Accept'') t \<Longrightarrow> tier_fires success_patterns t"
  using literal_found [of "''PDU Session Establishment Accept''" t]
  by (simp add: tier_fires_def success_patterns_def compile_eval lits_def ustr_def)

lemma rrc_found:
  "str_in (ustr ''RRC_CONNECTED reached'') t \<Longrightarrow> tier_fires success_patterns t"
  using literal_found [of "''RRC_CONNECTED reached''" t]
  by (simp add: tier_fires_def success_patterns_def compile_eval lits_def ustr_def)

lemma cbra_found:
  "str_in (ustr ''CBRA procedure succeeded'') t \<Longrightarrow> tier_fires success_patterns t"
  using literal_found [of "''CBRA procedure succeeded''" t]
  by (simp add: tier_fires_def success_patterns_def compile_eval lits_def ustr_def)

lemma success_signals_fire:
  assumes "2 \<le> success_signals t"
  shows "tier_fires success_patterns t"
proof -
  have "str_in (ustr ''PDU Session Establishment Accept'') t
      \<or> str_in (ustr ''RRC_CONNECTED reached'') t
      \<or> str_in (ustr ''CBRA procedure succeeded'') t"
    using assms by (auto simp: success_signals_def of_bool_def split: if_splits)
  then show ?thesis using pdu_found rrc_found cbra_found by blast
qed

lemma success_count_signals:
  "re_search ipv4_pattern t [] = Inr r \<Longrightarrow>
   sum_list (map of_bool
     [str_in (ustr ''PDU Session Establishment Accept'') t,
      str_in (ustr ''RRC_CONNECTED reached'') t,
      str_in (ustr ''CBRA procedure succeeded'') t,
      r \<noteq> None]) = success_signals t"
  by (cases r) (simp_all add: success_signals_def regex_found_def)

section \<open>The cascade of \<open>classify_severity\<close>\<close>

text \<open>
  When the loop over the streams has gone through, every stream is a string, the UE
  stream among them.
\<close>

lemma combine_logs_text:
  "combine_logs items acc = Inr t \<Longrightarrow> (k, c) \<in> set items \<Longrightarrow> \<exists>u. c = Text u"
proof (induction items acc rule: combine_logs.induct)
  case (1 all_logs)
  then show ?case by simp
next
  case (2 log_key log_content items all_logs)
  then show ?case by auto
next
  case (3 log_key log_content items all_logs)
  then show ?case by simp
qed

lemma ue_log_text:
  assumes "combined_logs b = Inr t"
  shows "\<exists>u. get_ue_log b = Text u"
proof (cases "logs b")
  case None
  then show ?thesis by (simp add: get_ue_log_def dict_get_def)
next
  case (Some items)
  show ?thesis
  proof (cases "map_of items (ustr ''ue.stdout.log'')")
    case None
    with Some show ?thesis by (simp add: get_ue_log_def dict_get_def)
  next
    case (Some c)
    then have "(ustr ''ue.stdout.log'', c) \<in> set items" by (rule map_of_SomeD)
    moreover from assms \<open>logs b = Some items\<close> have "combine_logs items [] = Inr t"
      by (simp add: combined_logs_def)
    ultimately obtain u where "c = Text u" using combine_logs_text by blast
    with Some \<open>logs b = Some items\<close> show ?thesis by (simp add: get_ue_log_def dict_get_def)
  qed
qed

text \<open>When every stream is a string, the loop goes through.\<close>

lemma combine_logs_total:
  "list_all (\<lambda>(log_key, log_content). is_text log_content) items \<Longrightarrow>
   \<exists>t. combine_logs items acc = Inr t"
proof (induction items acc rule: combine_logs.induct)
  case (1 all_logs)
  show ?case by simp
next
  case (2 log_key log_content items all_logs)
  then show ?case by simp
next
  case (3 log_key log_content items all_logs)
  then show ?case by simp
qed

lemma text_streams_combined:
  assumes "text_streams b"
  shows "\<exists>t. combined_logs b = Inr t"
proof (cases "logs b")
  case None
  then show ?thesis by (simp add: combined_logs_def)
next
  case (Some items)
  with assms have "list_all (\<lambda>(log_key, log_content). is_text log_content) items"
    by (simp add: text_streams_def)
  from combine_logs_total [OF this] Some show ?thesis by (simp add: combined_logs_def)
qed

text \<open>A stream that is a list stops the loop with the \<open>TypeError\<close>.\<close>

lemma combine_logs_list:
  "(k, Lines ls) \<in> set items \<Longrightarrow> combine_logs items acc = Inl (TypeError type_error_concat)"
proof (induction items acc rule: combine_logs.induct)
  case (1 all_logs)
  then show ?case by simp
next
  case (2 log_key log_content items all_logs)
  then show ?case by auto
next
  case (3 log_key log_content items all_logs)
  show ?case by simp
qed

lemma classify_severity_list_stream:
  assumes "logs b = Some items" and "(k, Lines ls) \<in> set items"
  shows "classify_severity b = Inl (TypeError type_error_concat)"
  using assms combine_logs_list [OF assms(2), of "[]"]
  by (simp add: classify_severity_def combined_logs_def)

lemma findall_connect:
  "\<exists>found. findall_content connect_pattern (Text u) = Inr found
           \<and> length found = connect_failure_count u"
  by (simp add: findall_content_def connect_failure_count_def re_findall_def
        connect_pattern_compile)

text \<open>The crash branch.\<close>

lemma crash_verdict:
  assumes "combined_logs b = Inr t" and "tier_fires crash_patterns t"
  shows "classify_severity b =
     Inr (1, root_cause_crash (meta b ''filename'' (ustr ''unknown'')) (meta b ''error_type'' []),
          tier_evidence crash_patterns t @ assertion_evidence t, 0.95)"
proof -
  obtain r where r: "re_search assertion_pattern t [] = Inr r"
    using re_search_assertion_total by blast
  show ?thesis
  proof (cases r)
    case None
    with assms r show ?thesis
      by (simp add: classify_severity_def Let_def assertion_evidence_def meta_def)
  next
    case (Some m)
    with r assertion_group_1 obtain g where "match_group m 1 = Inr g" by blast
    with assms r Some show ?thesis
      by (simp add: classify_severity_def Let_def assertion_evidence_def meta_def)
  qed
qed

text \<open>The success branch.\<close>

lemma success_verdict:
  assumes "combined_logs b = Inr t"
    and "\<not> tier_fires crash_patterns t"
    and "2 \<le> success_signals t"
  shows "classify_severity b =
     Inr (0, root_cause_success (meta b ''filename'' (ustr ''unknown'')),
          tier_evidence success_patterns t @ ipv4_entries t, 0.90)"
proof -
  obtain r where r: "re_search ipv4_pattern t [] = Inr r"
    using re_search_ipv4_total by blast
  note fires = success_signals_fire [OF assms(3)]
  note count = success_count_signals [OF r]
  show ?thesis
  proof (cases r)
    case None
    with assms r fires count show ?thesis
      by (simp add: classify_severity_def Let_def ipv4_entries_def meta_def)
  next
    case (Some m)
    from r Some have "m_string m = t"
      by (auto simp: re_search_def mk_match_def split: option.splits)
    with assms r fires count Some show ?thesis
      by (simp add: classify_severity_def Let_def match_group_0 ipv4_entries_def meta_def)
  qed
qed

text \<open>The statements after the success check, as one case distinction.\<close>

lemma classify_severity_rest_text:
  assumes "get_ue_log b = Text u"
  shows "classify_severity_rest b t fn am et imp hs sev ev =
     (if tier_fires ue_failure_patterns t then
        Inr (3, root_cause_ue_failure am, ev @ tier_evidence ue_failure_patterns t, 0.85)
      else if tier_fires abnormal_patterns t then
        Inr (2, root_cause_abnormal fn am imp, ev @ tier_evidence abnormal_patterns t, 0.70)
      else if str_in (ustr ''connect() to'') u \<and> str_in (ustr ''failed, errno'') u \<and> \<not> hs
              \<and> 10 < connect_failure_count u then
        Inr (3, root_cause_retry (connect_failure_count u),
             ev @ [str_of_nat (connect_failure_count u) @ ustr '' connection attempts failed''],
             0.80)
      else if et \<noteq> [] then
        Inr (2, root_cause_metadata et fn,
             ev @ [ustr ''Config error: '' @ et] @ [ustr ''Impact: '' @ imp], 0.50)
      else if hs then Inr (0, root_cause_residual fn, ev @ sev, 0.70)
      else Inr (0, root_cause_uncertain fn, ev @ [ustr ''Insufficient log information''], 0.30))"
proof -
  obtain found where "findall_content connect_pattern (Text u) = Inr found"
    "length found = connect_failure_count u"
    using findall_connect by blast
  with assms show ?thesis
    by (simp add: classify_severity_rest_def Let_def content_in_def)
qed

lemma classify_severity_falls_through:
  assumes "combined_logs b = Inr t"
    and "\<not> tier_fires crash_patterns t"
    and "\<not> (tier_fires success_patterns t \<and> 2 \<le> success_signals t)"
  shows "classify_severity b =
     classify_severity_rest b t
       (meta b ''filename'' (ustr ''unknown'')) (meta b ''affected_module'' (ustr ''Unknown''))
       (meta b ''error_type'' []) (meta b ''impact_description'' [])
       (tier_fires success_patterns t) (tier_evidence success_patterns t) []"
proof -
  obtain r where r: "re_search ipv4_pattern t [] = Inr r"
    using re_search_ipv4_total by blast
  note count = success_count_signals [OF r]
  from assms r count show ?thesis
    by (simp add: classify_severity_def Let_def meta_def)
qed

lemma fall_through_verdict:
  assumes "combined_logs b = Inr t"
    and "\<not> tier_fires crash_patterns t"
    and "\<not> (tier_fires success_patterns t \<and> 2 \<le> success_signals t)"
    and "get_ue_log b = Text u"
  shows "classify_severity b =
     (if tier_fires ue_failure_patterns t then
        Inr (3, root_cause_ue_failure (meta b ''affected_module'' (ustr ''Unknown'')),
             tier_evidence ue_failure_patterns t, 0.85)
      else if tier_fires abnormal_patterns t then
        Inr (2, root_cause_abnormal (meta b ''filename'' (ustr ''unknown''))
                  (meta b ''affected_module'' (ustr ''Unknown'')) (meta b ''impact_description'' []),
             tier_evidence abnormal_patterns t, 0.70)
      else if str_in (ustr ''connect() to'') u \<and> str_in (ustr ''failed, errno'') u
              \<and> \<not> tier_fires success_patterns t \<and> 10 < connect_failure_count u then
        Inr (3, root_cause_retry (connect_failure_count u),
             [str_of_nat (connect_failure_count u) @ ustr '' connection attempts failed''], 0.80)
      else if meta b ''error_type'' [] \<noteq> [] then
        Inr (2, root_cause_metadata (meta b ''error_type'' []) (meta b ''filename'' (ustr ''unknown'')),
             [ustr ''Config error: '' @ meta b ''error_type'' [],
              ustr ''Impact: '' @ meta b ''impact_description'' []], 0.50)
      else if tier_fires success_patterns t then
        Inr (0, root_cause_residual (meta b ''filename'' (ustr ''unknown'')),
             tier_evidence success_patterns t, 0.70)
      else
        Inr (0, root_cause_uncertain (meta b ''filename'' (ustr ''unknown'')),
             [ustr ''Insufficient log information''], 0.30))"
  using classify_severity_falls_through [OF assms(1-3)] classify_severity_rest_text [OF assms(4)]
  by simp

text \<open>On a bundle whose streams are all strings the classifier returns a verdict.\<close>

lemma classify_severity_total_on_text:
  assumes "combined_logs b = Inr t"
  shows "\<exists>v. classify_severity b = Inr v"
proof -
  obtain u where u: "get_ue_log b = Text u" using ue_log_text [OF assms] by blast
  show ?thesis
  proof (cases "tier_fires crash_patterns t")
    case True
    from crash_verdict [OF assms True] show ?thesis by blast
  next
    case False
    show ?thesis
    proof (cases "tier_fires success_patterns t \<and> 2 \<le> success_signals t")
      case True
      then have "2 \<le> success_signals t" by simp
      from success_verdict [OF assms False this] show ?thesis by blast
    next
      case nos: False
      show ?thesis
        unfolding fall_through_verdict [OF assms False nos u]
        by (simp only: if_split [where P = "\<lambda>x. \<exists>v. x = Inr v"]) blast
    qed
  qed
qed

section \<open>The assertion message\<close>

lemma assertion_message_fires: "tier_fires crash_patterns (pre @ assertion_message @ post)"
proof -
  have c: "re_compile ''Assertion.*failed'' =
      Some (lits (ustr ''Assertion'') @ Atom AnyChar Star # lits (ustr ''failed''))"
    by (simp add: compile_eval lits_def ustr_def)
  have t: "pre @ assertion_message @ post =
      pre @ ustr ''Assertion'' @ ustr '' (num_tx >= config.pdsch_AntennaPorts.XP) ''
        @ ustr ''failed'' @ (ustr ''!'' @ post)"
    by (simp add: assertion_message_def ustr_def)
  have n: "newline \<notin> set (ustr '' (num_tx >= config.pdsch_AntennaPorts.XP) '')"
    by (simp add: ustr_def newline_def)
  from dotstar_found [OF c t n] show ?thesis
    by (simp add: tier_fires_def crash_patterns_def)
qed

lemma assertion_message_tokens:
  "str_in (ustr ''Assertion'') (pre @ assertion_message @ post)"
  "str_in (ustr ''failed'') (pre @ assertion_message @ post)"
proof -
  have "pre @ assertion_message @ post =
      pre @ ustr ''Assertion''
        @ (ustr '' (num_tx >= config.pdsch_AntennaPorts.XP) failed!'' @ post)"
    by (simp add: assertion_message_def ustr_def)
  then show "str_in (ustr ''Assertion'') (pre @ assertion_message @ post)"
    unfolding str_in_iff by blast
  have "pre @ assertion_message @ post =
      (pre @ ustr ''Assertion (num_tx >= config.pdsch_AntennaPorts.XP) '') @ ustr ''failed''
        @ (ustr ''!'' @ post)"
    by (simp add: assertion_message_def ustr_def)
  then show "str_in (ustr ''failed'') (pre @ assertion_message @ post)"
    unfolding str_in_iff by blast
qed

lemma assertion_message_match:
  "re_compile assertion_pattern = Some ns \<Longrightarrow>
   match_here False ns (assertion_message @ post) k = Some (k + 57, [k + 11, k + 49])"
  by (auto simp add: assertion_pattern_compile assertion_message_def ustr_def lits_def)

lemma assertion_message_group:
  assumes "re_search assertion_pattern (pre @ assertion_message @ post) [] = Inr (Some m)"
    and "m_start m = length pre"
  shows "match_group m 1 = Inr assertion_expression"
proof -
  obtain ns where ns: "re_compile assertion_pattern = Some ns"
    by (simp add: assertion_pattern_compile)
  let ?t = "pre @ assertion_message @ post"
  from assms(1) ns obtain r where r: "search_from False ns ?t 0 = Some r" "m = mk_match ?t r"
    by (auto simp: re_search_def)
  obtain st e ms where [simp]: "r = (st, e, ms)" by (cases r)
  from assms(2) r(2) have st: "st = length pre" by (simp add: mk_match_def)
  from search_from_match r(1) obtain k where "st = 0 + k"
    "match_here False ns (drop k ?t) st = Some (e, ms)" by fastforce
  with st have "match_here False ns (assertion_message @ post) (length pre) = Some (e, ms)"
    by simp
  with assertion_message_match [OF ns] have "ms = [length pre + 11, length pre + 49]" by simp
  then show ?thesis
    by (simp add: match_group_def r(2) mk_match_def slice_def assertion_message_def
          assertion_expression_def ustr_def)
qed

section \<open>The sample bundles, evaluated\<close>

lemmas eval_text = ustr_def newline_def

lemmas eval_regex = pattern_matches_def regex_found_def re_search_def re_findall_def
  re_compile_def is_ascii_def special_chars_def bs_def fold_case_def mk_match_def
  tier_fires_def tier_evidence_def is_space_def is_decimal_def decimal_zeros_def

lemmas eval_bundle = combined_logs_def get_ue_log_def get_metadata_def dict_get_def meta_def

lemmas eval_tiers = crash_patterns_def success_patterns_def ue_failure_patterns_def
  abnormal_patterns_def

lemma one_stream_combined: "combined_logs (one_stream key u) = Inr (u @ [newline])"
  by (simp add: one_stream_def eval_bundle)

lemma one_stream_ue_log: "get_ue_log (one_stream (ustr ''ue.stdout.log'') u) = Text u"
  by (simp add: one_stream_def eval_bundle)

lemma one_stream_meta: "meta (one_stream key u) k d = d"
  by (simp add: one_stream_def eval_bundle)

lemma crash_after_success_fires: "tier_fires crash_patterns (crash_after_success_log @ [newline])"
  by (simp add: crash_after_success_log_def crash_patterns_def eval_regex eval_text)

lemma crash_after_success_signals: "2 \<le> success_signals (crash_after_success_log @ [newline])"
  by (simp add: crash_after_success_log_def success_signals_def ipv4_pattern_def eval_regex
        eval_text)

lemma crash_after_success_evidence:
  "tier_evidence crash_patterns (crash_after_success_log @ [newline]) = [ustr ''Segmentation fault'']"
  "assertion_evidence (crash_after_success_log @ [newline]) = []"
  by (simp_all add: crash_after_success_log_def crash_patterns_def assertion_evidence_def
        eval_regex eval_text)

lemma crash_after_success_verdict:
  "classify_severity (one_stream (ustr ''du.stdout.log'') crash_after_success_log) =
     Inr (1, root_cause_crash (ustr ''unknown'') [], [ustr ''Segmentation fault''], 0.95)"
  using crash_verdict [OF one_stream_combined crash_after_success_fires]
  by (simp add: crash_after_success_evidence one_stream_meta)

lemma connected_facts:
  "\<not> tier_fires crash_patterns (connected_log @ [newline])"
  "success_signals (connected_log @ [newline]) = 3"
  "tier_evidence success_patterns (connected_log @ [newline]) =
     [ustr ''PDU Session Establishment Accept'', ustr ''RRC_CONNECTED reached'',
      ustr ''Received PDU Session Establishment Accept'']"
  "ipv4_entries (connected_log @ [newline]) = [ipv4_evidence (ustr ''IPv4 10.0.0.5'')]"
  by (simp_all add: connected_log_def eval_tiers success_signals_def ipv4_entries_def
        ipv4_pattern_def slice_def eval_regex eval_text)

lemma empty_facts:
  "combined_logs empty_bundle = Inr []"
  "get_ue_log empty_bundle = Text []"
  "\<not> repeated_connection_attempts empty_bundle"
  "meta empty_bundle ''error_type'' [] = []"
  "meta empty_bundle ''filename'' (ustr ''unknown'') = ustr ''unknown''"
  by (simp_all add: empty_bundle_def repeated_connection_attempts_def eval_bundle eval_text)

lemma empty_quiet:
  "\<not> tier_fires crash_patterns []" "\<not> tier_fires success_patterns []"
  "\<not> tier_fires ue_failure_patterns []" "\<not> tier_fires abnormal_patterns []"
  by (simp_all add: eval_tiers eval_regex)

lemma quiet_facts:
  "combined_logs quiet_bundle = Inr (ustr ''gNB started'' @ [newline])"
  "\<not> repeated_connection_attempts quiet_bundle"
  "meta quiet_bundle ''error_type'' [] = []"
  "meta quiet_bundle ''filename'' (ustr ''unknown'') = ustr ''cu_case_01.json''"
  by (simp_all add: quiet_bundle_def repeated_connection_attempts_def eval_bundle eval_text)

lemma quiet_quiet:
  "\<not> tier_fires crash_patterns (ustr ''gNB started'' @ [newline])"
  "\<not> tier_fires success_patterns (ustr ''gNB started'' @ [newline])"
  "\<not> tier_fires ue_failure_patterns (ustr ''gNB started'' @ [newline])"
  "\<not> tier_fires abnormal_patterns (ustr ''gNB started'' @ [newline])"
  by (simp_all add: eval_tiers eval_regex eval_text)

lemma weak_success_tiers:
  "tier_fires success_patterns (weak_success_log @ [newline])"
  "\<not> tier_fires crash_patterns (weak_success_log @ [newline])"
  "\<not> tier_fires ue_failure_patterns (weak_success_log @ [newline])"
  "\<not> tier_fires abnormal_patterns (weak_success_log @ [newline])"
  by (simp_all add: weak_success_log_def eval_tiers eval_regex eval_text)

lemma weak_success_signals: "success_signals (weak_success_log @ [newline]) < 2"
  by (simp add: weak_success_log_def success_signals_def ipv4_pattern_def eval_regex eval_text)

lemma weak_success_evidence:
  "tier_evidence success_patterns (weak_success_log @ [newline]) = [ustr ''RA procedure succeeded'']"
  by (simp add: weak_success_log_def success_patterns_def eval_regex eval_text)

lemma weak_success_with_error_type_facts:
  "combined_logs weak_success_with_error_type = Inr (weak_success_log @ [newline])"
  "get_ue_log weak_success_with_error_type = Text weak_success_log"
  "meta weak_success_with_error_type ''error_type'' [] = ustr ''invalid_value''"
  "meta weak_success_with_error_type ''filename'' (ustr ''unknown'') = ustr ''unknown''"
  "meta weak_success_with_error_type ''impact_description'' [] = []"
  by (simp_all add: weak_success_with_error_type_def eval_bundle eval_text)

lemma concat_replicate_9: "concat (replicate 9 x) = x @ x @ x @ x @ x @ x @ x @ x @ x"
  by (simp add: numeral_eq_Suc)

lemma concat_replicate_10: "concat (replicate 10 x) = x @ x @ x @ x @ x @ x @ x @ x @ x @ x"
  by (simp add: numeral_eq_Suc)

lemmas eval_failures = eleven_failures_def ten_failures_def concat_replicate_10
  concat_replicate_9 retry_line_def

lemma ten_quiet:
  "\<not> tier_fires crash_patterns (ten_failures @ [newline])"
  "\<not> tier_fires success_patterns (ten_failures @ [newline])"
  "\<not> tier_fires ue_failure_patterns (ten_failures @ [newline])"
  "\<not> tier_fires abnormal_patterns (ten_failures @ [newline])"
  by (simp_all add: eval_failures eval_tiers eval_regex eval_text)

lemma ten_count: "connect_failure_count ten_failures = 10"
  by (simp add: connect_failure_count_def eval_failures connect_pattern_def eval_regex eval_text)

lemma ten_texts:
  "str_in (ustr ''connect() to'') ten_failures"
  "str_in (ustr ''failed, errno'') ten_failures"
  by (simp_all add: eval_failures eval_text)

lemma eleven_quiet:
  "\<not> tier_fires crash_patterns (eleven_failures @ [newline])"
  "\<not> tier_fires success_patterns (eleven_failures @ [newline])"
  "\<not> tier_fires ue_failure_patterns (eleven_failures @ [newline])"
  "\<not> tier_fires abnormal_patterns (eleven_failures @ [newline])"
  by (simp_all add: eval_failures eval_tiers eval_regex eval_text)

lemma eleven_count: "connect_failure_count eleven_failures = 11"
  by (simp add: connect_failure_count_def eval_failures connect_pattern_def eval_regex eval_text)

lemma eleven_texts:
  "str_in (ustr ''connect() to'') eleven_failures"
  "str_in (ustr ''failed, errno'') eleven_failures"
  by (simp_all add: eval_failures eval_text)

lemma str_of_nat_11: "str_of_nat 11 = ustr ''11''"
  by (simp add: ustr_def)

lemma other_key_ue_log: "get_ue_log (one_stream (ustr ''ue.log'') u) = Text []"
  by (simp add: one_stream_def eval_bundle eval_text)

lemma other_key_verdict:
  "classify_severity (one_stream (ustr ''ue.log'') eleven_failures) =
     Inr (0, root_cause_uncertain (ustr ''unknown''), [ustr ''Insufficient log information''], 0.30)"
proof -
  have nos: "\<not> (tier_fires success_patterns (eleven_failures @ [newline])
      \<and> 2 \<le> success_signals (eleven_failures @ [newline]))"
    using eleven_quiet(2) by simp
  show ?thesis
    using fall_through_verdict [OF one_stream_combined eleven_quiet(1) nos other_key_ue_log]
      eleven_quiet
    by (simp add: one_stream_meta eval_text)
qed

lemma assertion_log_facts:
  "tier_evidence crash_patterns (assertion_log @ [newline]) = [ustr ''Assertion.*failed'']"
  "re_search assertion_pattern (assertion_log @ [newline]) [] = Inr (Some assertion_match)"
  "m_start assertion_match = length (ustr ''[GNB_APP] '')"
  by (simp_all add: assertion_log_def assertion_message_def assertion_match_def
        assertion_pattern_def crash_patterns_def eval_regex eval_text)

lemma two_assertions_facts:
  "tier_fires crash_patterns (two_assertions_log @ [newline])"
  "tier_evidence crash_patterns (two_assertions_log @ [newline]) = [ustr ''Assertion.*failed'']"
  "assertion_evidence (two_assertions_log @ [newline]) = [ustr ''Assertion: a'']"
  "str_in assertion_message (two_assertions_log @ [newline])"
  "\<not> str_in assertion_expression (ustr ''Assertion.*failed'')"
  "\<not> str_in assertion_expression (ustr ''Assertion: a'')"
  by (simp_all add: two_assertions_log_def assertion_message_def assertion_expression_def
        assertion_evidence_def assertion_pattern_def crash_patterns_def match_group_def slice_def
        eval_regex eval_text)

section \<open>The properties of the classifier\<close>

text \<open>
  C1, crash precedence.  Whenever a pattern of the crash tier matches the combined
  logs, \<open>classify_severity\<close> returns severity 1 (component crash) with confidence
  0.95, whatever other tiers match as well.  The summary is the crash text with the
  file name and the error type of the metadata; the evidence is the crash patterns
  that matched, followed by the assertion entry if there is one.
\<close>

theorem crash_precedence:
  assumes "combined_logs b = Inr t" and "tier_fires crash_patterns t"
  shows "classify_severity b =
     Inr (ComponentCrash,
          root_cause_crash (meta b ''filename'' (ustr ''unknown'')) (meta b ''error_type'' []),
          tier_evidence crash_patterns t @ assertion_evidence t, 0.95)"
  using crash_verdict [OF assms] by (simp add: ComponentCrash_def)

text \<open>
  The property at a bundle whose only stream shows two success signals and then a
  segmentation fault: the success tier fires too, and the verdict is the crash.
\<close>

theorem crash_precedence_witness:
  "combined_logs (one_stream (ustr ''du.stdout.log'') crash_after_success_log) =
     Inr (crash_after_success_log @ [newline])
   \<and> tier_fires crash_patterns (crash_after_success_log @ [newline])
   \<and> tier_fires success_patterns (crash_after_success_log @ [newline])
   \<and> 2 \<le> success_signals (crash_after_success_log @ [newline])
   \<and> classify_severity (one_stream (ustr ''du.stdout.log'') crash_after_success_log) =
       Inr (ComponentCrash, root_cause_crash (ustr ''unknown'') [],
            [ustr ''Segmentation fault''], 0.95)"
  using crash_precedence [OF one_stream_combined crash_after_success_fires]
    crash_after_success_fires crash_after_success_signals
    success_signals_fire [OF crash_after_success_signals]
  by (simp add: one_stream_combined crash_after_success_evidence one_stream_meta)

text \<open>
  C2, the uncertain terminal case, as the code has it.  When no pattern of the four
  tiers matches the combined logs, the UE stream does not satisfy the heuristic of
  repeated connection attempts and the error type of the metadata is empty,
  \<open>classify_severity\<close> returns confidence 0.30 and the single evidence entry
  ``Insufficient log information''.  The severity it returns is 0, the stage of
  ``No Error'': the source has no severity of its own for the uncertain case.
\<close>

theorem uncertain_terminal_case:
  assumes "combined_logs b = Inr t"
    and "\<not> tier_fires crash_patterns t" and "\<not> tier_fires success_patterns t"
    and "\<not> tier_fires ue_failure_patterns t" and "\<not> tier_fires abnormal_patterns t"
    and "\<not> repeated_connection_attempts b"
    and "meta b ''error_type'' [] = []"
  shows "classify_severity b =
     Inr (NoError, root_cause_uncertain (meta b ''filename'' (ustr ''unknown'')),
          [ustr ''Insufficient log information''], 0.30)"
proof -
  obtain u where u: "get_ue_log b = Text u" using ue_log_text [OF assms(1)] by blast
  from assms(3) have nos: "\<not> (tier_fires success_patterns t \<and> 2 \<le> success_signals t)"
    by simp
  from assms(6) u have
    "\<not> (str_in (ustr ''connect() to'') u \<and> str_in (ustr ''failed, errno'') u
        \<and> \<not> tier_fires success_patterns t \<and> 10 < connect_failure_count u)"
    by (simp add: repeated_connection_attempts_def)
  with fall_through_verdict [OF assms(1,2) nos u] assms(3,4,5,7) show ?thesis
    by (simp add: NoError_def)
qed

text \<open>The property at a bundle whose only stream says that the gNB started.\<close>

theorem uncertain_terminal_case_witness:
  "combined_logs quiet_bundle = Inr (ustr ''gNB started'' @ [newline])
   \<and> \<not> tier_fires crash_patterns (ustr ''gNB started'' @ [newline])
   \<and> \<not> tier_fires success_patterns (ustr ''gNB started'' @ [newline])
   \<and> \<not> tier_fires ue_failure_patterns (ustr ''gNB started'' @ [newline])
   \<and> \<not> tier_fires abnormal_patterns (ustr ''gNB started'' @ [newline])
   \<and> \<not> repeated_connection_attempts quiet_bundle
   \<and> meta quiet_bundle ''error_type'' [] = []
   \<and> classify_severity quiet_bundle =
       Inr (NoError, root_cause_uncertain (ustr ''cu_case_01.json''),
            [ustr ''Insufficient log information''], 0.30)"
  using uncertain_terminal_case [OF quiet_facts(1) quiet_quiet quiet_facts(2,3)]
    quiet_facts quiet_quiet
  by simp

text \<open>
  A severity distinct from ``No Error'' is not what the uncertain case returns: for
  the bundle without any stream and without metadata, where nothing matches, the
  severity of the verdict is the stage of ``No Error''.
\<close>

theorem uncertain_not_distinct_counterexample:
  "combined_logs empty_bundle = Inr []
   \<and> \<not> tier_fires crash_patterns [] \<and> \<not> tier_fires success_patterns []
   \<and> \<not> tier_fires ue_failure_patterns [] \<and> \<not> tier_fires abnormal_patterns []
   \<and> \<not> repeated_connection_attempts empty_bundle
   \<and> meta empty_bundle ''error_type'' [] = []
   \<and> classify_severity empty_bundle =
       Inr (NoError, root_cause_uncertain (ustr ''unknown''),
            [ustr ''Insufficient log information''], 0.30)"
proof -
  have nos: "\<not> (tier_fires success_patterns [] \<and> 2 \<le> success_signals [])"
    using empty_quiet(2) by simp
  have "classify_severity empty_bundle =
       Inr (NoError, root_cause_uncertain (ustr ''unknown''),
            [ustr ''Insufficient log information''], 0.30)"
    using fall_through_verdict [OF empty_facts(1) empty_quiet(1) nos empty_facts(2)] empty_quiet
    by (simp add: NoError_def empty_facts; simp add: eval_text)
  with empty_facts empty_quiet show ?thesis by simp
qed

text \<open>
  C3, success corroboration.  When no crash pattern matches the combined logs and at
  least two of the four success signals are present (the three literal texts and a
  match of the IPv4 pattern), \<open>classify_severity\<close> returns severity 0 (no error)
  with confidence 0.90; the evidence is the success patterns that matched, followed by
  the entry for the matched IPv4 text if the IPv4 pattern matches.
\<close>

theorem success_corroboration:
  assumes "combined_logs b = Inr t"
    and "\<not> tier_fires crash_patterns t"
    and "2 \<le> success_signals t"
  shows "classify_severity b =
     Inr (NoError, root_cause_success (meta b ''filename'' (ustr ''unknown'')),
          tier_evidence success_patterns t @ ipv4_entries t, 0.90)"
  using success_verdict [OF assms] by (simp add: NoError_def)

text \<open>
  The property at a UE stream with the session acceptance, the connected state and an
  address: three signals, and the address is the last entry of the evidence.
\<close>

theorem success_corroboration_witness:
  "combined_logs (one_stream (ustr ''ue.stdout.log'') connected_log) = Inr (connected_log @ [newline])
   \<and> \<not> tier_fires crash_patterns (connected_log @ [newline])
   \<and> 2 \<le> success_signals (connected_log @ [newline])
   \<and> classify_severity (one_stream (ustr ''ue.stdout.log'') connected_log) =
       Inr (NoError, root_cause_success (ustr ''unknown''),
            [ustr ''PDU Session Establishment Accept'', ustr ''RRC_CONNECTED reached'',
             ustr ''Received PDU Session Establishment Accept'',
             ipv4_evidence (ustr ''IPv4 10.0.0.5'')], 0.90)"
proof -
  have s: "2 \<le> success_signals (connected_log @ [newline])"
    by (simp add: connected_facts(2))
  from success_corroboration [OF one_stream_combined connected_facts(1) s] s show ?thesis
    by (simp add: one_stream_combined connected_facts one_stream_meta)
qed

text \<open>
  C4, the residual success fallback, as the code has it.  When a success pattern
  matches the combined logs, fewer than two of the four success signals are present,
  no pattern of the crash, connection failure and abnormal tiers matches, and the
  error type of the metadata is empty, \<open>classify_severity\<close> returns severity 0 (no
  error) with confidence 0.70, and the success patterns that matched as evidence.
\<close>

theorem residual_success_fallback:
  assumes "combined_logs b = Inr t"
    and "tier_fires success_patterns t" and "success_signals t < 2"
    and "\<not> tier_fires crash_patterns t"
    and "\<not> tier_fires ue_failure_patterns t" and "\<not> tier_fires abnormal_patterns t"
    and "meta b ''error_type'' [] = []"
  shows "classify_severity b =
     Inr (NoError, root_cause_residual (meta b ''filename'' (ustr ''unknown'')),
          tier_evidence success_patterns t, 0.70)"
proof -
  obtain u where u: "get_ue_log b = Text u" using ue_log_text [OF assms(1)] by blast
  from assms(3) have nos: "\<not> (tier_fires success_patterns t \<and> 2 \<le> success_signals t)"
    by simp
  from fall_through_verdict [OF assms(1,4) nos u] assms(2,5,6,7) show ?thesis
    by (simp add: NoError_def)
qed

text \<open>The property at a UE stream that shows the random access success and no more.\<close>

theorem residual_success_fallback_witness:
  "combined_logs (one_stream (ustr ''ue.stdout.log'') weak_success_log) =
     Inr (weak_success_log @ [newline])
   \<and> tier_fires success_patterns (weak_success_log @ [newline])
   \<and> tier_evidence success_patterns (weak_success_log @ [newline]) =
       [ustr ''RA procedure succeeded'']
   \<and> success_signals (weak_success_log @ [newline]) < 2
   \<and> \<not> tier_fires crash_patterns (weak_success_log @ [newline])
   \<and> \<not> tier_fires ue_failure_patterns (weak_success_log @ [newline])
   \<and> \<not> tier_fires abnormal_patterns (weak_success_log @ [newline])
   \<and> meta (one_stream (ustr ''ue.stdout.log'') weak_success_log) ''error_type'' [] = []
   \<and> classify_severity (one_stream (ustr ''ue.stdout.log'') weak_success_log) =
       Inr (NoError, root_cause_residual (ustr ''unknown''), [ustr ''RA procedure succeeded''],
            0.70)"
  using residual_success_fallback [OF one_stream_combined weak_success_tiers(1)
      weak_success_signals weak_success_tiers(2,3,4) one_stream_meta]
    weak_success_tiers weak_success_signals
  by (simp add: one_stream_combined one_stream_meta weak_success_evidence)

text \<open>
  Without the condition on the error type the verdict is another one: the same stream
  with the error type \<open>invalid_value\<close> in the metadata is classified by the metadata
  default, severity 2 with confidence 0.50, which the cascade tries before the weak
  success.
\<close>

theorem residual_success_counterexample:
  "combined_logs weak_success_with_error_type = Inr (weak_success_log @ [newline])
   \<and> tier_fires success_patterns (weak_success_log @ [newline])
   \<and> tier_evidence success_patterns (weak_success_log @ [newline]) =
       [ustr ''RA procedure succeeded'']
   \<and> success_signals (weak_success_log @ [newline]) < 2
   \<and> \<not> tier_fires crash_patterns (weak_success_log @ [newline])
   \<and> \<not> tier_fires ue_failure_patterns (weak_success_log @ [newline])
   \<and> \<not> tier_fires abnormal_patterns (weak_success_log @ [newline])
   \<and> classify_severity weak_success_with_error_type =
       Inr (ComponentAbnormal,
            root_cause_metadata (ustr ''invalid_value'') (ustr ''unknown''),
            [ustr ''Config error: invalid_value'', ustr ''Impact: ''], 0.50)"
proof -
  have nos: "\<not> (tier_fires success_patterns (weak_success_log @ [newline])
      \<and> 2 \<le> success_signals (weak_success_log @ [newline]))"
    using weak_success_signals by simp
  have "classify_severity weak_success_with_error_type =
       Inr (ComponentAbnormal,
            root_cause_metadata (ustr ''invalid_value'') (ustr ''unknown''),
            [ustr ''Config error: invalid_value'', ustr ''Impact: ''], 0.50)"
    using fall_through_verdict [OF weak_success_with_error_type_facts(1) weak_success_tiers(2)
        nos weak_success_with_error_type_facts(2)] weak_success_tiers
    by (simp add: ComponentAbnormal_def weak_success_with_error_type_facts; simp add: eval_text)
  with weak_success_with_error_type_facts weak_success_tiers weak_success_signals
    weak_success_evidence
  show ?thesis by simp
qed

text \<open>
  C5, the threshold of repeated connection attempts.  When no pattern of the four
  tiers matches the combined logs and the UE stream contains both \<open>connect() to\<close>
  and \<open>failed, errno\<close>: with ten connect failures or fewer in the UE stream the rule
  does not fire, and the verdict is the metadata default or the uncertain case; with
  eleven or more it fires, with severity 3 (connection failure), confidence 0.80 and
  the count as evidence.
\<close>

theorem repeated_connection_threshold:
  assumes "combined_logs b = Inr t"
    and "\<not> tier_fires crash_patterns t" and "\<not> tier_fires success_patterns t"
    and "\<not> tier_fires ue_failure_patterns t" and "\<not> tier_fires abnormal_patterns t"
    and "get_ue_log b = Text u"
    and "str_in (ustr ''connect() to'') u" and "str_in (ustr ''failed, errno'') u"
  shows "(connect_failure_count u \<le> 10 \<longrightarrow>
            classify_severity b =
              (if meta b ''error_type'' [] \<noteq> [] then
                 Inr (ComponentAbnormal,
                      root_cause_metadata (meta b ''error_type'' [])
                        (meta b ''filename'' (ustr ''unknown'')),
                      [ustr ''Config error: '' @ meta b ''error_type'' [],
                       ustr ''Impact: '' @ meta b ''impact_description'' []], 0.50)
               else
                 Inr (NoError, root_cause_uncertain (meta b ''filename'' (ustr ''unknown'')),
                      [ustr ''Insufficient log information''], 0.30)))
       \<and> (10 < connect_failure_count u \<longrightarrow>
            classify_severity b =
              Inr (ConnectionFailure, root_cause_retry (connect_failure_count u),
                   [str_of_nat (connect_failure_count u) @ ustr '' connection attempts failed''],
                   0.80))"
proof -
  from assms(3) have nos: "\<not> (tier_fires success_patterns t \<and> 2 \<le> success_signals t)"
    by simp
  from fall_through_verdict [OF assms(1,2) nos assms(6)] assms(3,4,5,7,8) show ?thesis
    by (simp add: NoError_def ComponentAbnormal_def ConnectionFailure_def)
qed

text \<open>
  The property at the two sides of the threshold: a UE stream of ten failed
  connection attempts is the uncertain case, one of eleven is a connection failure.
\<close>

theorem repeated_connection_threshold_witness:
  "combined_logs (one_stream (ustr ''ue.stdout.log'') ten_failures) = Inr (ten_failures @ [newline])
   \<and> \<not> tier_fires crash_patterns (ten_failures @ [newline])
   \<and> \<not> tier_fires success_patterns (ten_failures @ [newline])
   \<and> \<not> tier_fires ue_failure_patterns (ten_failures @ [newline])
   \<and> \<not> tier_fires abnormal_patterns (ten_failures @ [newline])
   \<and> get_ue_log (one_stream (ustr ''ue.stdout.log'') ten_failures) = Text ten_failures
   \<and> str_in (ustr ''connect() to'') ten_failures
   \<and> str_in (ustr ''failed, errno'') ten_failures
   \<and> connect_failure_count ten_failures = 10
   \<and> classify_severity (one_stream (ustr ''ue.stdout.log'') ten_failures) =
       Inr (NoError, root_cause_uncertain (ustr ''unknown''),
            [ustr ''Insufficient log information''], 0.30)
   \<and> combined_logs (one_stream (ustr ''ue.stdout.log'') eleven_failures) =
       Inr (eleven_failures @ [newline])
   \<and> \<not> tier_fires crash_patterns (eleven_failures @ [newline])
   \<and> \<not> tier_fires success_patterns (eleven_failures @ [newline])
   \<and> \<not> tier_fires ue_failure_patterns (eleven_failures @ [newline])
   \<and> \<not> tier_fires abnormal_patterns (eleven_failures @ [newline])
   \<and> get_ue_log (one_stream (ustr ''ue.stdout.log'') eleven_failures) = Text eleven_failures
   \<and> str_in (ustr ''connect() to'') eleven_failures
   \<and> str_in (ustr ''failed, errno'') eleven_failures
   \<and> connect_failure_count eleven_failures = 11
   \<and> classify_severity (one_stream (ustr ''ue.stdout.log'') eleven_failures) =
       Inr (ConnectionFailure, root_cause_retry 11, [ustr ''11 connection attempts failed''],
            0.80)"
proof -
  have ten: "classify_severity (one_stream (ustr ''ue.stdout.log'') ten_failures) =
       Inr (NoError, root_cause_uncertain (ustr ''unknown''),
            [ustr ''Insufficient log information''], 0.30)"
    using repeated_connection_threshold [OF one_stream_combined ten_quiet one_stream_ue_log
        ten_texts]
    by (simp add: ten_count one_stream_meta)
  have eleven: "classify_severity (one_stream (ustr ''ue.stdout.log'') eleven_failures) =
       Inr (ConnectionFailure, root_cause_retry 11, [ustr ''11 connection attempts failed''],
            0.80)"
    using repeated_connection_threshold [OF one_stream_combined eleven_quiet one_stream_ue_log
        eleven_texts]
    by (simp add: eleven_count str_of_nat_11 ustr_def)
  show ?thesis
    using ten eleven ten_quiet ten_count ten_texts eleven_quiet eleven_count eleven_texts
    by (simp add: one_stream_combined one_stream_ue_log)
qed

text \<open>
  C6, totality, as the code has it.  For every bundle whose streams are all strings,
  with any of the streams and of the metadata fields present or missing,
  \<open>classify_severity\<close> returns a verdict and raises no exception.
\<close>

theorem totality_on_text_streams:
  assumes "text_streams b"
  shows "\<exists>v. classify_severity b = Inr v"
proof -
  from text_streams_combined [OF assms] obtain t where "combined_logs b = Inr t" by blast
  then show ?thesis by (rule classify_severity_total_on_text)
qed

text \<open>
  The property at the bundle of the central unit, which has one stream and only the
  file name in its metadata.
\<close>

theorem totality_on_text_streams_witness:
  "text_streams quiet_bundle \<and> (\<exists>v. classify_severity quiet_bundle = Inr v)"
proof -
  have h: "text_streams quiet_bundle"
    by (simp add: text_streams_def quiet_bundle_def)
  from totality_on_text_streams [OF h] h show ?thesis by blast
qed

text \<open>
  A stream that is a list of strings is not joined: the loop that combines the logs
  adds a string to the list and raises \<open>TypeError\<close>.  At the bundle whose only
  stream is a list of two lines the classifier returns no verdict, and so it does at
  every bundle with such a stream (\<open>classify_severity_list_stream\<close>).
\<close>

theorem list_stream_counterexample:
  "classify_severity list_stream_bundle = Inl (TypeError type_error_concat)"
  by (simp add: classify_severity_def list_stream_bundle_def combined_logs_def)

text \<open>
  C7, the extraction of the assertion, as the code has it.  In the crash branch, when
  the combined logs contain \<open>Assertion\<close> and \<open>failed\<close> and the assertion pattern
  matches, the text of the group of its leftmost match is the last entry of the
  evidence.  Every combined log that contains the assertion message of the antenna
  ports is a component crash with confidence 0.95; and when the leftmost match of the
  assertion pattern begins at that message, the last entry of the evidence is the
  expression of the message.
\<close>

theorem assertion_extraction:
  assumes "combined_logs b = Inr t"
  shows "(tier_fires crash_patterns t \<and> str_in (ustr ''Assertion'') t
          \<and> str_in (ustr ''failed'') t \<and> re_search assertion_pattern t [] = Inr (Some m) \<longrightarrow>
            (\<exists>g. match_group m 1 = Inr g
               \<and> classify_severity b =
                   Inr (ComponentCrash,
                        root_cause_crash (meta b ''filename'' (ustr ''unknown''))
                          (meta b ''error_type'' []),
                        tier_evidence crash_patterns t @ [ustr ''Assertion: '' @ g], 0.95)))
       \<and> (t = pre @ assertion_message @ post \<longrightarrow>
            (\<exists>ev. classify_severity b =
               Inr (ComponentCrash,
                    root_cause_crash (meta b ''filename'' (ustr ''unknown''))
                      (meta b ''error_type'' []), ev, 0.95)))
       \<and> (t = pre @ assertion_message @ post
          \<and> re_search assertion_pattern t [] = Inr (Some m') \<and> m_start m' = length pre \<longrightarrow>
            classify_severity b =
              Inr (ComponentCrash,
                   root_cause_crash (meta b ''filename'' (ustr ''unknown''))
                     (meta b ''error_type'' []),
                   tier_evidence crash_patterns t @ [ustr ''Assertion: '' @ assertion_expression],
                   0.95))"
proof (intro conjI impI)
  assume h: "tier_fires crash_patterns t \<and> str_in (ustr ''Assertion'') t
      \<and> str_in (ustr ''failed'') t \<and> re_search assertion_pattern t [] = Inr (Some m)"
  then obtain g where g: "match_group m 1 = Inr g" using assertion_group_1 by blast
  from h g have "assertion_evidence t = [ustr ''Assertion: '' @ g]"
    by (intro assertion_evidence_found) blast+
  moreover from h have "tier_fires crash_patterns t" by simp
  note crash_verdict [OF assms this]
  ultimately show "\<exists>g. match_group m 1 = Inr g
      \<and> classify_severity b =
          Inr (ComponentCrash,
               root_cause_crash (meta b ''filename'' (ustr ''unknown'')) (meta b ''error_type'' []),
               tier_evidence crash_patterns t @ [ustr ''Assertion: '' @ g], 0.95)"
    using g by (simp add: ComponentCrash_def)
next
  assume "t = pre @ assertion_message @ post"
  then have "tier_fires crash_patterns t" using assertion_message_fires by simp
  from crash_verdict [OF assms this]
  show "\<exists>ev. classify_severity b =
      Inr (ComponentCrash,
           root_cause_crash (meta b ''filename'' (ustr ''unknown'')) (meta b ''error_type'' []),
           ev, 0.95)"
    by (simp add: ComponentCrash_def)
next
  assume h: "t = pre @ assertion_message @ post
      \<and> re_search assertion_pattern t [] = Inr (Some m') \<and> m_start m' = length pre"
  then have t: "t = pre @ assertion_message @ post"
    and s: "re_search assertion_pattern t [] = Inr (Some m')"
    and st: "m_start m' = length pre"
    by blast+
  from t have f: "tier_fires crash_patterns t" using assertion_message_fires by simp
  from s st have g: "match_group m' 1 = Inr assertion_expression"
    unfolding t by (rule assertion_message_group)
  from t have tokens: "str_in (ustr ''Assertion'') t" "str_in (ustr ''failed'') t"
    using assertion_message_tokens by simp_all
  have "assertion_evidence t = [ustr ''Assertion: '' @ assertion_expression]"
    using tokens s g by (rule assertion_evidence_found)
  with crash_verdict [OF assms f]
  show "classify_severity b =
      Inr (ComponentCrash,
           root_cause_crash (meta b ''filename'' (ustr ''unknown'')) (meta b ''error_type'' []),
           tier_evidence crash_patterns t @ [ustr ''Assertion: '' @ assertion_expression], 0.95)"
    by (simp add: ComponentCrash_def)
qed

text \<open>
  The property at a stream of the distributed unit that holds the message after a
  log tag: the match begins at the message, and its expression is in the evidence.
\<close>

theorem assertion_extraction_witness:
  "combined_logs (one_stream (ustr ''du.stdout.log'') assertion_log) = Inr (assertion_log @ [newline])
   \<and> assertion_log @ [newline] = ustr ''[GNB_APP] '' @ assertion_message @ [newline]
   \<and> tier_fires crash_patterns (assertion_log @ [newline])
   \<and> str_in (ustr ''Assertion'') (assertion_log @ [newline])
   \<and> str_in (ustr ''failed'') (assertion_log @ [newline])
   \<and> re_search assertion_pattern (assertion_log @ [newline]) [] = Inr (Some assertion_match)
   \<and> m_start assertion_match = length (ustr ''[GNB_APP] '')
   \<and> classify_severity (one_stream (ustr ''du.stdout.log'') assertion_log) =
       Inr (ComponentCrash, root_cause_crash (ustr ''unknown'') [],
            [ustr ''Assertion.*failed'', ustr ''Assertion: '' @ assertion_expression], 0.95)"
proof -
  have t: "assertion_log @ [newline] = ustr ''[GNB_APP] '' @ assertion_message @ [newline]"
    by (simp add: assertion_log_def)
  have f: "tier_fires crash_patterns (assertion_log @ [newline])"
    unfolding t by (rule assertion_message_fires)
  have tokens: "str_in (ustr ''Assertion'') (assertion_log @ [newline])"
    "str_in (ustr ''failed'') (assertion_log @ [newline])"
    unfolding t by (rule assertion_message_tokens)+
  from assertion_extraction [OF one_stream_combined, where m = assertion_match
      and m' = assertion_match and pre = "ustr ''[GNB_APP] ''" and post = "[newline]"]
    t assertion_log_facts(2,3)
  have "classify_severity (one_stream (ustr ''du.stdout.log'') assertion_log) =
      Inr (ComponentCrash,
           root_cause_crash
             (meta (one_stream (ustr ''du.stdout.log'') assertion_log) ''filename'' (ustr ''unknown''))
             (meta (one_stream (ustr ''du.stdout.log'') assertion_log) ''error_type'' []),
           tier_evidence crash_patterns (assertion_log @ [newline])
             @ [ustr ''Assertion: '' @ assertion_expression], 0.95)"
    by blast
  then have "classify_severity (one_stream (ustr ''du.stdout.log'') assertion_log) =
       Inr (ComponentCrash, root_cause_crash (ustr ''unknown'') [],
            [ustr ''Assertion.*failed'', ustr ''Assertion: '' @ assertion_expression], 0.95)"
    by (simp add: one_stream_meta assertion_log_facts(1))
  with t f tokens assertion_log_facts(2,3) one_stream_combined show ?thesis
    by blast
qed

text \<open>
  The expression of the message is not in the evidence of every combined log that
  contains the message: after an earlier assertion the evidence holds the expression
  of that one, which the search finds first, and no entry contains the expression of
  the message.
\<close>

theorem assertion_extraction_counterexample:
  "combined_logs (one_stream (ustr ''du.stdout.log'') two_assertions_log) =
     Inr (two_assertions_log @ [newline])
   \<and> str_in assertion_message (two_assertions_log @ [newline])
   \<and> classify_severity (one_stream (ustr ''du.stdout.log'') two_assertions_log) =
       Inr (ComponentCrash, root_cause_crash (ustr ''unknown'') [],
            [ustr ''Assertion.*failed'', ustr ''Assertion: a''], 0.95)
   \<and> \<not> str_in assertion_expression (ustr ''Assertion.*failed'')
   \<and> \<not> str_in assertion_expression (ustr ''Assertion: a'')"
  using crash_verdict [OF one_stream_combined two_assertions_facts(1)] two_assertions_facts
  by (simp add: one_stream_combined one_stream_meta ComponentCrash_def)

text \<open>
  C8, the wrapper for processing errors.  When the file cannot be read or parsed,
  \<open>analyze_file\<close> returns the record of a processing error: severity -1, which is
  none of the stages 0 to 3, and confidence 0.0.  The record is the same whatever the
  classifier is, so the cascade has no part in it.
\<close>

theorem processing_error_wrapper:
  "analyze_file fp (Inl msg) = processing_error fp msg
   \<and> severity_stage (analyze_file fp (Inl msg)) = ProcessingError
   \<and> ProcessingError \<notin> {NoError, ComponentCrash, ComponentAbnormal, ConnectionFailure}
   \<and> confidence (analyze_file fp (Inl msg)) = 0.0
   \<and> (\<forall>classify. analyze_file_with classify fp (Inl msg) = analyze_file fp (Inl msg))"
  by (simp add: analyze_file_def analyze_file_with_def processing_error_def ProcessingError_def
        NoError_def ComponentCrash_def ComponentAbnormal_def ConnectionFailure_def)

text \<open>
  C9, confidence is a constant of the rule.  Every verdict of \<open>classify_severity\<close>
  has one of the seven confidences 0.95, 0.90, 0.85, 0.80, 0.70, 0.50 and 0.30, a
  number between 0 and 1, and its severity and confidence are those of one of the
  eight \<open>return\<close> statements of the cascade.
\<close>

theorem confidence_fixed:
  assumes "classify_severity b = Inr (s, rc, ev, c)"
  shows "c \<in> {0.95, 0.90, 0.85, 0.80, 0.70, 0.50, 0.30} \<and> 0 \<le> c \<and> c \<le> 1
         \<and> (s, c) \<in> set rule_outcomes"
proof -
  from assms obtain t where t: "combined_logs b = Inr t"
    by (cases "combined_logs b") (simp_all add: classify_severity_def)
  then obtain u where u: "get_ue_log b = Text u" using ue_log_text by blast
  have "(s, c) \<in> set rule_outcomes"
  proof (cases "tier_fires crash_patterns t")
    case True
    from crash_verdict [OF t True] assms show ?thesis by (simp add: rule_outcomes_def)
  next
    case False
    show ?thesis
    proof (cases "tier_fires success_patterns t \<and> 2 \<le> success_signals t")
      case True
      then have "2 \<le> success_signals t" by simp
      from success_verdict [OF t False this] assms show ?thesis by (simp add: rule_outcomes_def)
    next
      case nos: False
      from fall_through_verdict [OF t False nos u] assms show ?thesis
        by (simp add: rule_outcomes_def split: if_splits)
    qed
  qed
  then show ?thesis by (auto simp: rule_outcomes_def)
qed

text \<open>The property at the verdict of the crash after a success.\<close>

theorem confidence_fixed_witness:
  "classify_severity (one_stream (ustr ''du.stdout.log'') crash_after_success_log) =
     Inr (1, root_cause_crash (ustr ''unknown'') [], [ustr ''Segmentation fault''], 0.95)
   \<and> (0.95 :: real) \<in> {0.95, 0.90, 0.85, 0.80, 0.70, 0.50, 0.30}
   \<and> (0 :: real) \<le> 0.95 \<and> (0.95 :: real) \<le> 1
   \<and> (1, 0.95) \<in> set rule_outcomes"
  using confidence_fixed [OF crash_after_success_verdict] crash_after_success_verdict
  by simp

text \<open>
  C10, the key of the UE stream.  The heuristic of repeated connection attempts reads
  the stream under the key \<open>ue.stdout.log\<close> and no other: when that stream is
  absent, or does not contain both \<open>connect() to\<close> and \<open>failed, errno\<close>, no
  verdict of \<open>classify_severity\<close> has the confidence 0.80 of the heuristic, however
  many connect failures the other streams hold.
\<close>

theorem ue_stream_key_specificity:
  assumes "\<not> (content_in (ustr ''connect() to'') (get_ue_log b)
              \<and> content_in (ustr ''failed, errno'') (get_ue_log b))"
    and "classify_severity b = Inr (s, rc, ev, c)"
  shows "c \<noteq> 0.80"
proof -
  from assms(2) obtain t where t: "combined_logs b = Inr t"
    by (cases "combined_logs b") (simp_all add: classify_severity_def)
  then obtain u where u: "get_ue_log b = Text u" using ue_log_text by blast
  show ?thesis
  proof (cases "tier_fires crash_patterns t")
    case True
    from crash_verdict [OF t True] assms(2) show ?thesis by simp
  next
    case False
    show ?thesis
    proof (cases "tier_fires success_patterns t \<and> 2 \<le> success_signals t")
      case True
      then have "2 \<le> success_signals t" by simp
      from success_verdict [OF t False this] assms(2) show ?thesis by simp
    next
      case nos: False
      from assms(1) u
      have "\<not> (str_in (ustr ''connect() to'') u \<and> str_in (ustr ''failed, errno'') u)"
        by (simp add: content_in_def)
      with fall_through_verdict [OF t False nos u] assms(2) show ?thesis
        by (auto split: if_splits)
    qed
  qed
qed

text \<open>
  The property at a bundle that holds the eleven failed connection attempts under the
  key \<open>ue.log\<close>: the stream \<open>ue.stdout.log\<close> is absent, and the verdict is the
  uncertain case.
\<close>

theorem ue_stream_key_specificity_witness:
  "\<not> (content_in (ustr ''connect() to'') (get_ue_log (one_stream (ustr ''ue.log'') eleven_failures))
       \<and> content_in (ustr ''failed, errno'')
           (get_ue_log (one_stream (ustr ''ue.log'') eleven_failures)))
   \<and> str_in (ustr ''connect() to'') eleven_failures
   \<and> str_in (ustr ''failed, errno'') eleven_failures
   \<and> connect_failure_count eleven_failures = 11
   \<and> classify_severity (one_stream (ustr ''ue.log'') eleven_failures) =
       Inr (0, root_cause_uncertain (ustr ''unknown''), [ustr ''Insufficient log information''],
            0.30)
   \<and> (0.30 :: real) \<noteq> 0.80"
proof -
  have h: "\<not> (content_in (ustr ''connect() to'')
        (get_ue_log (one_stream (ustr ''ue.log'') eleven_failures))
       \<and> content_in (ustr ''failed, errno'')
           (get_ue_log (one_stream (ustr ''ue.log'') eleven_failures)))"
    unfolding other_key_ue_log by (simp add: content_in_def eval_text)
  from ue_stream_key_specificity [OF h other_key_verdict] h other_key_verdict
    eleven_texts eleven_count
  show ?thesis by simp
qed

end
